theory Spec2Isabelle
  imports Complex_Main "HOL-Library.Word"
begin

section \<open>Primed Listening: the content script as a state machine\<close>

text \<open>
  The development embeds \<^verbatim>\<open>src/content.js\<close> (and the older variant of the same script,
  \<^verbatim>\<open>src/unnamed/part_002\<close>) as pure functions over an explicit script state and an explicit
  browser state.  JavaScript strings are sequences of UTF-16 code units, and both
  \<^verbatim>\<open>String.prototype.length\<close> and the regular expressions of the script (none of which has
  the \<^verbatim>\<open>u\<close> flag) work on code units, so a subtitle text is a list of 16-bit words.
  JavaScript numbers that hold durations are IEEE doubles in the browser; they are
  idealised here as real numbers, with \<^verbatim>\<open>Math.max\<close> and \<^verbatim>\<open>Math.min\<close> as \<open>max\<close> and \<open>min\<close>.
\<close>

subsection \<open>Strings\<close>

type_synonym jsstring = "16 word list"

text \<open>Code units of an ASCII literal, used to write concrete subtitle texts.\<close>

definition ascii :: "string \<Rightarrow> jsstring" where
  "ascii s = map of_char s"

text \<open>
  ECMAScript \<^verbatim>\<open>LineTerminator\<close>: LF, CR, LS, PS.  The regular expression atom \<^verbatim>\<open>.\<close>
  (without the \<^verbatim>\<open>s\<close> flag) matches every code unit except these.
\<close>

definition isLineTerminator :: "16 word \<Rightarrow> bool" where
  "isLineTerminator c \<longleftrightarrow> c = 0x000A \<or> c = 0x000D \<or> c = 0x2028 \<or> c = 0x2029"

text \<open>
  The class \<^verbatim>\<open>\s\<close>, which is also what \<^verbatim>\<open>String.prototype.trim\<close> removes:
  \<^verbatim>\<open>WhiteSpace\<close> (TAB, VT, FF, SP, NBSP, ZWNBSP and the other space separators)
  together with \<^verbatim>\<open>LineTerminator\<close>.
\<close>

definition isWhiteSpace :: "16 word \<Rightarrow> bool" where
  "isWhiteSpace c \<longleftrightarrow>
     c = 0x0009 \<or> c = 0x000A \<or> c = 0x000B \<or> c = 0x000C \<or> c = 0x000D \<or> c = 0x0020 \<or>
     c = 0x00A0 \<or> c = 0x1680 \<or> (0x2000 \<le> c \<and> c \<le> 0x200A) \<or>
     c = 0x2028 \<or> c = 0x2029 \<or> c = 0x202F \<or> c = 0x205F \<or> c = 0x3000 \<or> c = 0xFEFF"

text \<open>\<^verbatim>\<open>text.trim()\<close>: drop white space at both ends.\<close>

definition trim :: "jsstring \<Rightarrow> jsstring" where
  "trim text = rev (dropWhile isWhiteSpace (rev (dropWhile isWhiteSpace text)))"

subsection \<open>The four replacements of \<^verbatim>\<open>getVisibleCharCount\<close>\<close>

text \<open>
  \<^verbatim>\<open>replace(re, "")\<close> with a global regular expression scans the string from the left:
  where the expression matches at the current position the match is deleted and the scan
  goes on behind it, otherwise the code unit is kept and the scan moves on by one.
  Each of the four expressions is embedded as such a scan.

  \<^verbatim>\<open>/[\n\r]/g\<close>: a match is a single LF or CR.
\<close>

fun replaceNewlines :: "jsstring \<Rightarrow> jsstring" where
  "replaceNewlines [] = []"
| "replaceNewlines (c # cs) =
     (if c = 0x000A \<or> c = 0x000D then replaceNewlines cs else c # replaceNewlines cs)"

text \<open>\<^verbatim>\<open>/\s+/g\<close>: a match is a maximal run of white space (the quantifier is greedy).\<close>

function replaceSpaces :: "jsstring \<Rightarrow> jsstring" where
  "replaceSpaces [] = []"
| "replaceSpaces (c # cs) =
     (if isWhiteSpace c then replaceSpaces (dropWhile isWhiteSpace cs)
      else c # replaceSpaces cs)"
  by pat_completeness auto
termination
  by (relation "measure length") (auto simp: length_dropWhile_le less_Suc_eq_le)

text \<open>
  The tail \<^verbatim>\<open>.*?X\<close> of an expression, for a code unit \<open>X\<close> that is not a line terminator:
  the lazy quantifier takes as few code units as possible, so the match ends at the
  first \<open>X\<close>, and it fails when a line terminator (which \<^verbatim>\<open>.\<close> refuses) or the end
  of the string comes first.  The result is what follows the match.
\<close>

fun lazyUntil :: "16 word \<Rightarrow> jsstring \<Rightarrow> jsstring option" where
  "lazyUntil x [] = None"
| "lazyUntil x (c # cs) =
     (if c = x then Some cs
      else if isLineTerminator c then None
      else lazyUntil x cs)"

lemma lazyUntil_length: "lazyUntil x cs = Some r \<Longrightarrow> length r < Suc (length cs)"
  by (induction cs) (auto split: if_splits)

text \<open>\<^verbatim>\<open>/\{.*?\}/g\<close>: an opening brace up to the nearest closing brace.\<close>

function replaceBraces :: "jsstring \<Rightarrow> jsstring" where
  "replaceBraces [] = []"
| "replaceBraces (c # cs) =
     (case (if c = 0x007B then lazyUntil 0x007D cs else None) of
        Some r \<Rightarrow> replaceBraces r
      | None \<Rightarrow> c # replaceBraces cs)"
  by pat_completeness auto
termination
  by (relation "measure length") (auto split: if_splits dest: lazyUntil_length)

text \<open>
  The last expression is an alternation: \<^verbatim>\<open>\(.*?\)\<close> (ASCII parentheses), tried first,
  or the same pattern with the fullwidth parentheses U+FF08 and U+FF09, each written
  in the source with an identity escape.
\<close>

function replaceParens :: "jsstring \<Rightarrow> jsstring" where
  "replaceParens [] = []"
| "replaceParens (c # cs) =
     (case (if c = 0x0028 then lazyUntil 0x0029 cs else None) of
        Some r \<Rightarrow> replaceParens r
      | None \<Rightarrow>
          (case (if c = 0xFF08 then lazyUntil 0xFF09 cs else None) of
             Some r \<Rightarrow> replaceParens r
           | None \<Rightarrow> c # replaceParens cs))"
  by pat_completeness auto
termination
  by (relation "measure length") (auto split: if_splits dest: lazyUntil_length)

text \<open>
  \<^verbatim>\<open>getVisibleCharCount(text)\<close>, identical in both variants of the script.  The empty
  string is falsy, so the first line returns 0 for it.
\<close>

definition getVisibleCharCount :: "jsstring \<Rightarrow> nat" where
  "getVisibleCharCount text =
     (if text = [] then 0
      else length (replaceParens (replaceBraces (replaceSpaces (replaceNewlines text)))))"

subsection \<open>Settings and script state\<close>

text \<open>
  The hotkey object \<^verbatim>\<open>settings.hotkey\<close> and a \<^verbatim>\<open>keydown\<close> event share the fields the
  handler compares; the event has \<^verbatim>\<open>key\<close> in addition.
\<close>

record chord =
  code :: string
  ctrlKey :: bool
  altKey :: bool
  shiftKey :: bool
  metaKey :: bool

record key_event = chord +
  key :: string

text \<open>
  The objects \<^verbatim>\<open>settings\<close> and \<^verbatim>\<open>state\<close>.  The older variant of the script has neither
  \<^verbatim>\<open>max_pause\<close> nor \<^verbatim>\<open>uiHidden\<close>; \<^verbatim>\<open>content.js\<close> adds them.  A timer handle is the
  positive integer \<^verbatim>\<open>setTimeout\<close> returned, so a stored handle is truthy and \<^verbatim>\<open>null\<close>
  is \<open>None\<close>.
\<close>

record settings_part002 =
  pause_per_char :: real
  min_pause :: real
  min_chars :: nat
  hide_subs :: bool
  hotkey :: chord

record settings = settings_part002 +
  max_pause :: real

record state_part002 =
  enabled :: bool
  isAutoPaused :: bool
  isPauseLocked :: bool
  timerId :: "nat option"
  lastSubText :: jsstring

record state = state_part002 +
  uiHidden :: bool

subsection \<open>The browser\<close>

text \<open>
  What the script reads and changes outside its own objects: the video element
  (\<^verbatim>\<open>video.paused\<close>, and a trace of the calls made on the video and on the key event),
  the class lists of the nodes matched by \<^verbatim>\<open>currentPlatform.subContainer\<close>, the class list
  of the Netflix player wrapper, the on-screen display element, and the table of
  pending timeouts with the callback each one runs.
\<close>

datatype platform = Youtube | Netflix

datatype callback = ResumeCb | OsdHideCb

record timer =
  handle :: nat
  callback :: callback
  delay :: real

datatype call = VideoPause | VideoPlay | PreventDefault | StopPropagation

datatype play_result = Fulfilled | Rejected

record osd_elem =
  innerText :: string
  display :: string
  hideTimer :: "nat option"

record browser =
  paused :: bool
  calls :: "call list"
  subs :: "string set list"
  wrapper :: "string set"
  osd :: "osd_elem option"
  timers :: "timer list"
  lastHandle :: nat

type_synonym machine = "state \<times> browser"

definition setTimeout :: "callback \<Rightarrow> real \<Rightarrow> browser \<Rightarrow> nat \<times> browser" where
  "setTimeout cb ms w =
     (let h = Suc (lastHandle w)
      in (h, w\<lparr>timers := timers w @ [\<lparr>handle = h, callback = cb, delay = ms\<rparr>],
               lastHandle := h\<rparr>))"

definition clearTimeout :: "nat \<Rightarrow> browser \<Rightarrow> browser" where
  "clearTimeout h w = w\<lparr>timers := filter (\<lambda>t. handle t \<noteq> h) (timers w)\<rparr>"

text \<open>The resume timers that are armed: pending timeouts whose callback resumes playback.\<close>

definition resumeTimers :: "browser \<Rightarrow> timer list" where
  "resumeTimers w = filter (\<lambda>t. callback t = ResumeCb) (timers w)"

definition videoPause :: "browser \<Rightarrow> browser" where
  "videoPause w = w\<lparr>paused := True, calls := calls w @ [VideoPause]\<rparr>"

text \<open>The number of \<^verbatim>\<open>video.pause()\<close> calls made so far.\<close>

definition pauseCount :: "browser \<Rightarrow> nat" where
  "pauseCount w = length (filter (\<lambda>c. c = VideoPause) (calls w))"

subsection \<open>Utility functions\<close>

text \<open>
  \<^verbatim>\<open>showOSD(message)\<close>: create the element on first use, set its text, show it, and
  reset its fade-out timer (clear the old one, then arm a new one).
\<close>

definition showOSD :: "string \<Rightarrow> browser \<Rightarrow> browser" where
  "showOSD message w =
     (let e = (case osd w of
                 None \<Rightarrow> \<lparr>innerText = [], display = [], hideTimer = None\<rparr>
               | Some e \<Rightarrow> e);
          w1 = (case hideTimer e of Some h \<Rightarrow> clearTimeout h w | None \<Rightarrow> w);
          (h, w2) = setTimeout OsdHideCb 2000 w1
      in w2\<lparr>osd := Some (e\<lparr>innerText := message, display := ''block'',
                              hideTimer := Some h\<rparr>)\<rparr>)"

text \<open>
  \<^verbatim>\<open>toggleSubtitles(forceVisible)\<close>, the same in both variants: nothing happens unless the
  hide-subs feature is on or visibility is forced.
\<close>

definition toggleSubtitles :: "'a settings_part002_scheme \<Rightarrow> bool \<Rightarrow> browser \<Rightarrow> browser" where
  "toggleSubtitles s forceVisible w =
     (if \<not> hide_subs s \<and> \<not> forceVisible then w
      else w\<lparr>subs := map (\<lambda>node.
                 if forceVisible then insert ''pl-show-sub'' (node - {''pl-hidden-sub''})
                 else insert ''pl-hidden-sub'' (node - {''pl-show-sub''})) (subs w)\<rparr>)"

text \<open>\<^verbatim>\<open>currentPlatform.toggleUI(hide)\<close>: empty on YouTube, a class on the wrapper on Netflix.\<close>

definition toggleUI :: "platform \<Rightarrow> bool \<Rightarrow> machine \<Rightarrow> machine" where
  "toggleUI p hide m =
     (case m of (st, w) \<Rightarrow>
        (case p of
           Youtube \<Rightarrow> (st, w)
         | Netflix \<Rightarrow>
             if hide then (st\<lparr>uiHidden := True\<rparr>,
                           w\<lparr>wrapper := insert ''pl-netflix-ui-hidden'' (wrapper w)\<rparr>)
             else (st\<lparr>uiHidden := False\<rparr>,
                   w\<lparr>wrapper := wrapper w - {''pl-netflix-ui-hidden''}\<rparr>)))"

definition restoreUI :: "platform \<Rightarrow> machine \<Rightarrow> machine" where
  "restoreUI p m = (if uiHidden (fst m) then toggleUI p False m else m)"

subsection \<open>Core logic of \<^verbatim>\<open>content.js\<close>\<close>

text \<open>
  \<^verbatim>\<open>video.play()\<close> returns a promise the browser may reject.  The script attaches the
  handler \<^verbatim>\<open>() => { }\<close> to the rejection; \<open>ignorePlayInterruption\<close> is that handler.
\<close>

definition ignorePlayInterruption :: "machine \<Rightarrow> machine" where
  "ignorePlayInterruption m = m"

definition videoPlay :: "play_result \<Rightarrow> machine \<Rightarrow> machine" where
  "videoPlay r m =
     (case m of (st, w) \<Rightarrow>
        (let w1 = w\<lparr>calls := calls w @ [VideoPlay]\<rparr>
         in case r of
              Fulfilled \<Rightarrow> (st, w1\<lparr>paused := False\<rparr>)
            | Rejected \<Rightarrow> ignorePlayInterruption (st, w1)))"

text \<open>\<^verbatim>\<open>resumePlayback(video)\<close>; \<open>r\<close> is what becomes of the play request.\<close>

definition resumePlayback :: "settings \<Rightarrow> play_result \<Rightarrow> machine \<Rightarrow> machine" where
  "resumePlayback s r m =
     (case m of (st, w) \<Rightarrow>
        (let w1 = (case timerId st of Some h \<Rightarrow> clearTimeout h w | None \<Rightarrow> w);
             st1 = st\<lparr>timerId := None, isAutoPaused := False, isPauseLocked := False\<rparr>;
             w2 = (if hide_subs s then toggleSubtitles s False w1 else w1)
         in videoPlay r (st1, w2)))"

text \<open>\<^verbatim>\<open>lockPause()\<close>.\<close>

definition lockPause :: "machine \<Rightarrow> machine" where
  "lockPause m =
     (case m of (st, w) \<Rightarrow>
        (let (st1, w1) = (case timerId st of
                            Some h \<Rightarrow> (st\<lparr>timerId := None\<rparr>, clearTimeout h w)
                          | None \<Rightarrow> (st, w))
         in (st1\<lparr>isPauseLocked := True\<rparr>, showOSD ''|| Pause Locked'' w1)))"

text \<open>
  The duration computed in \<^verbatim>\<open>handleSubtitle\<close>, in seconds:
  \<^verbatim>\<open>Math.max(min_pause, chars * pause_per_char)\<close>, then \<^verbatim>\<open>Math.min(max_pause, duration)\<close>.
\<close>

definition pauseDuration :: "settings \<Rightarrow> nat \<Rightarrow> real" where
  "pauseDuration s chars =
     (let duration = max (min_pause s) (real chars * pause_per_char s)
      in min (max_pause s) duration)"

text \<open>\<^verbatim>\<open>handleSubtitle(text, video)\<close>.\<close>

definition handleSubtitle :: "settings \<Rightarrow> platform \<Rightarrow> jsstring \<Rightarrow> machine \<Rightarrow> machine" where
  "handleSubtitle s p text m =
     (case m of (st, w) \<Rightarrow>
        if \<not> enabled st \<or> text = [] then (st, w)
        else
          let cleanText = trim text in
          if cleanText = lastSubText st then (st, w)
          else
            let st1 = st\<lparr>lastSubText := cleanText\<rparr>;
                chars = getVisibleCharCount cleanText in
            if chars < min_chars s then (st1, w)
            else
              let duration = pauseDuration s chars;
                  st2 = st1\<lparr>isAutoPaused := True\<rparr>;
                  (st3, w1) = toggleUI p True (st2, w);
                  w2 = videoPause w1;
                  w3 = (if hide_subs s then toggleSubtitles s True w2 else w2);
                  (h, w4) = setTimeout ResumeCb (duration * 1000) w3
              in (st3\<lparr>timerId := Some h\<rparr>, w4))"

subsection \<open>Event handlers of \<^verbatim>\<open>content.js\<close>\<close>

definition matchesHotkey :: "settings \<Rightarrow> key_event \<Rightarrow> bool" where
  "matchesHotkey s e \<longleftrightarrow>
     code e = code (hotkey s) \<and> ctrlKey e = ctrlKey (hotkey s) \<and>
     altKey e = altKey (hotkey s) \<and> shiftKey e = shiftKey (hotkey s) \<and>
     metaKey e = metaKey (hotkey s)"

definition isInteractionKey :: "key_event \<Rightarrow> bool" where
  "isInteractionKey e \<longleftrightarrow> code e = ''Space'' \<or> key e = ''k'' \<or> key e = ''p''"

text \<open>The \<^verbatim>\<open>keydown\<close> listener; \<open>r\<close> is the outcome of a play request, should one be made.\<close>

definition keydown :: "settings \<Rightarrow> platform \<Rightarrow> play_result \<Rightarrow> key_event \<Rightarrow> machine \<Rightarrow> machine" where
  "keydown s p r e m =
     (case restoreUI p m of (st, w) \<Rightarrow>
        if matchesHotkey s e then
          (let st1 = st\<lparr>enabled := \<not> enabled st\<rparr>;
               w1 = showOSD (if enabled st1 then ''Primed Listening: ON''
                             else ''Primed Listening: OFF'') w
           in if \<not> enabled st1 then
                (let (st2, w2) = (if isAutoPaused st1 then resumePlayback s r (st1, w1)
                                  else (st1, w1))
                 in restoreUI p (st2, toggleSubtitles s True w2))
              else (st1, if hide_subs s then toggleSubtitles s False w1 else w1))
        else if \<not> enabled st then (st, w)
        else if isInteractionKey e \<and> isAutoPaused st then
          (let w1 = w\<lparr>calls := calls w @ [PreventDefault, StopPropagation]\<rparr>
           in if \<not> isPauseLocked st then lockPause (st, w1)
              else resumePlayback s r (st, w1))
        else (st, w))"

text \<open>
  The \<^verbatim>\<open>MutationObserver\<close> callback.  \<^verbatim>\<open>currentPlatform.getText()\<close> reads the page; its
  outcome is an input: it throws, or it returns a string.  \<open>forwardedText\<close> is the
  text the callback hands to \<^verbatim>\<open>handleSubtitle\<close>, if any.
\<close>

datatype 'a outcome = Threw | Returned 'a

definition forwardedText :: "machine \<Rightarrow> jsstring outcome \<Rightarrow> jsstring option" where
  "forwardedText m g =
     (case m of (st, w) \<Rightarrow>
        if \<not> enabled st \<or> (paused w \<and> \<not> isAutoPaused st) then None
        else case g of
               Threw \<Rightarrow> None
             | Returned text \<Rightarrow> if text \<noteq> [] \<and> length text > 0 then Some text else None)"

definition observerCallback :: "settings \<Rightarrow> platform \<Rightarrow> jsstring outcome \<Rightarrow> machine \<Rightarrow> machine" where
  "observerCallback s p g m =
     (case forwardedText m g of
        None \<Rightarrow> m
      | Some text \<Rightarrow> handleSubtitle s p text m)"

text \<open>
  A pending timeout expires: the browser removes it from the table and runs its callback.
  The resume timer runs \<^verbatim>\<open>resumePlayback(video)\<close>, the timer of the on-screen display
  hides the element.
\<close>

definition timerFires :: "settings \<Rightarrow> play_result \<Rightarrow> nat \<Rightarrow> machine \<Rightarrow> machine" where
  "timerFires s r h m =
     (case m of (st, w) \<Rightarrow>
        (case find (\<lambda>t. handle t = h) (timers w) of
           None \<Rightarrow> (st, w)
         | Some t \<Rightarrow>
             (let w1 = clearTimeout h w
              in case callback t of
                   ResumeCb \<Rightarrow> resumePlayback s r (st, w1)
                 | OsdHideCb \<Rightarrow>
                     (st, w1\<lparr>osd := map_option (\<lambda>e. e\<lparr>display := ''none''\<rparr>) (osd w1)\<rparr>))))"

subsection \<open>The older variant, \<^verbatim>\<open>src/unnamed/part_002\<close>\<close>

text \<open>
  Its \<^verbatim>\<open>handleSubtitle\<close> has no cap on the duration and no platform hook; its
  \<^verbatim>\<open>getVisibleCharCount\<close> and \<^verbatim>\<open>toggleSubtitles\<close> are those of \<^verbatim>\<open>content.js\<close>, line for line.
\<close>

definition pauseDuration_part002 :: "settings_part002 \<Rightarrow> nat \<Rightarrow> real" where
  "pauseDuration_part002 s chars = max (min_pause s) (real chars * pause_per_char s)"

definition handleSubtitle_part002 ::
  "settings_part002 \<Rightarrow> jsstring \<Rightarrow> state_part002 \<times> browser \<Rightarrow> state_part002 \<times> browser" where
  "handleSubtitle_part002 s text m =
     (case m of (st, w) \<Rightarrow>
        if \<not> enabled st \<or> text = [] then (st, w)
        else
          let cleanText = trim text in
          if cleanText = lastSubText st then (st, w)
          else
            let st1 = st\<lparr>lastSubText := cleanText\<rparr>;
                chars = getVisibleCharCount cleanText in
            if chars < min_chars s then (st1, w)
            else
              let duration = pauseDuration_part002 s chars;
                  st2 = st1\<lparr>isAutoPaused := True\<rparr>;
                  w1 = videoPause w;
                  w2 = (if hide_subs s then toggleSubtitles s True w1 else w1);
                  (h, w3) = setTimeout ResumeCb (duration * 1000) w2
              in (st2\<lparr>timerId := Some h\<rparr>, w3))"

subsection \<open>The visible character count as the specification words it\<close>

text \<open>
  The specification counts the characters left after stripping newlines, all white
  space, paired-brace annotations and paired-parenthesis annotations (ASCII and
  fullwidth).  \<open>stripAnnotations\<close> follows these words: an opening delimiter that has
  its closing delimiter somewhere behind it is removed together with everything up to
  the nearest such closing delimiter.
\<close>

function stripAnnotations :: "(16 word \<times> 16 word) list \<Rightarrow> jsstring \<Rightarrow> jsstring" where
  "stripAnnotations ps [] = []"
| "stripAnnotations ps (c # cs) =
     (case find (\<lambda>(l, r). c = l \<and> r \<in> set cs) ps of
        Some (l, r) \<Rightarrow> stripAnnotations ps (tl (dropWhile (\<lambda>x. x \<noteq> r) cs))
      | None \<Rightarrow> c # stripAnnotations ps cs)"
  by pat_completeness auto
termination
proof (relation "measure (\<lambda>(ps, cs). length cs)")
  fix ps :: "(16 word \<times> 16 word) list" and c y :: "16 word" and cs :: jsstring
  have "length (tl (dropWhile (\<lambda>x. x \<noteq> y) cs)) \<le> length cs"
    using length_dropWhile_le [of "\<lambda>x. x \<noteq> y" cs] by simp
  then show "((ps, tl (dropWhile (\<lambda>x. x \<noteq> y) cs)), ps, c # cs)
             \<in> measure (\<lambda>(ps, cs). length cs)"
    by simp
qed simp_all

definition specVisibleChars :: "jsstring \<Rightarrow> nat" where
  "specVisibleChars text =
     length
       (stripAnnotations [(0x0028, 0x0029), (0xFF08, 0xFF09)]
         (stripAnnotations [(0x007B, 0x007D)]
           (filter (\<lambda>c. \<not> isWhiteSpace c)
             (filter (\<lambda>c. c \<noteq> 0x000A \<and> c \<noteq> 0x000D) text))))"

text \<open>
  The condition under which \<^verbatim>\<open>handleSubtitle\<close> reaches \<^verbatim>\<open>video.pause()\<close>: none of its
  three early returns is taken.
\<close>

definition triggersPause :: "'a settings_part002_scheme \<Rightarrow> 'b state_part002_scheme \<Rightarrow> jsstring \<Rightarrow> bool" where
  "triggersPause s st text \<longleftrightarrow>
     enabled st \<and> text \<noteq> [] \<and> trim text \<noteq> lastSubText st \<and>
     \<not> getVisibleCharCount (trim text) < min_chars s"

subsection \<open>Initial values\<close>

text \<open>
  The object literals at the top of \<^verbatim>\<open>content.js\<close>, and a page with a playing video and
  one subtitle container on which the script has not acted yet.
\<close>

definition defaultHotkey :: chord where
  "defaultHotkey = \<lparr>code = ''KeyP'', ctrlKey = False, altKey = True, shiftKey = False, metaKey = False\<rparr>"

definition initialSettings :: settings where
  "initialSettings = \<lparr>pause_per_char = 0.06, min_pause = 0.5, min_chars = 2, hide_subs = False,
     hotkey = defaultHotkey, max_pause = 2.0\<rparr>"

definition initialState :: state where
  "initialState = \<lparr>enabled = False, isAutoPaused = False, isPauseLocked = False,
     timerId = None, lastSubText = [], uiHidden = False\<rparr>"

definition playingPage :: browser where
  "playingPage = \<lparr>paused = False, calls = [], subs = [{}], wrapper = {}, osd = None,
     timers = [], lastHandle = 0\<rparr>"

text \<open>
  Concrete inputs: the state the script is in after the first subtitle line of a
  session on Netflix, a plain Space key press, and the chord Alt+P as Chrome reports
  it on Windows and Linux (\<^verbatim>\<open>code\<close> is \<^verbatim>\<open>KeyP\<close> and \<^verbatim>\<open>key\<close> is \<^verbatim>\<open>p\<close>).
\<close>

definition afterFirstLine :: machine where
  "afterFirstLine =
     handleSubtitle initialSettings Netflix (ascii ''Hello there'')
       (initialState\<lparr>enabled := True\<rparr>, playingPage)"

definition spaceKey :: key_event where
  "spaceKey = \<lparr>code = ''Space'', ctrlKey = False, altKey = False, shiftKey = False,
     metaKey = False, key = '' ''\<rparr>"

definition altP :: key_event where
  "altP = \<lparr>code = ''KeyP'', ctrlKey = False, altKey = True, shiftKey = False,
     metaKey = False, key = ''p''\<rparr>"

text \<open>A second line arrives, through the observer, while the first pause is still held.\<close>

definition afterSecondLine :: machine where
  "afterSecondLine =
     observerCallback initialSettings Netflix (Returned (ascii ''General Kenobi'')) afterFirstLine"

text \<open>
  The Space key locks the first pause, and the second line arrives, through the
  observer, during the locked pause.
\<close>

definition lockedAfterFirstLine :: machine where
  "lockedAfterFirstLine = keydown initialSettings Netflix Fulfilled spaceKey afterFirstLine"

definition secondLineWhileLocked :: machine where
  "secondLineWhileLocked =
     observerCallback initialSettings Netflix (Returned (ascii ''General Kenobi''))
       lockedAfterFirstLine"

section \<open>Properties\<close>

subsection \<open>The replacements against the specification's stripping\<close>

lemma filter_not_dropWhile: "filter (\<lambda>c. \<not> P c) (dropWhile P xs) = filter (\<lambda>c. \<not> P c) xs"
  by (induction xs) auto

lemma replaceNewlines_filter:
  "replaceNewlines cs = filter (\<lambda>c. c \<noteq> 0x000A \<and> c \<noteq> 0x000D) cs"
  by (induction cs) auto

lemma replaceSpaces_filter: "replaceSpaces cs = filter (\<lambda>c. \<not> isWhiteSpace c) cs"
  by (induction cs rule: replaceSpaces.induct) (simp_all add: filter_not_dropWhile)

lemma filter_not_trim: "filter (\<lambda>c. \<not> isWhiteSpace c) (trim text) = filter (\<lambda>c. \<not> isWhiteSpace c) text"
  unfolding trim_def by (simp add: filter_not_dropWhile flip: rev_filter)

lemma lineTerminator_isWhiteSpace: "isLineTerminator c \<Longrightarrow> isWhiteSpace c"
  by (auto simp: isLineTerminator_def isWhiteSpace_def)

lemma lazyUntil_nearest:
  "\<forall>c\<in>set cs. \<not> isLineTerminator c \<Longrightarrow>
   lazyUntil x cs = (if x \<in> set cs then Some (tl (dropWhile (\<lambda>c. c \<noteq> x) cs)) else None)"
  by (induction cs) auto

lemma lazyUntil_subset: "lazyUntil x cs = Some r \<Longrightarrow> set r \<subseteq> set cs"
  by (induction cs) (auto split: if_splits)

lemma nearest_length: "length (tl (dropWhile (\<lambda>c. c \<noteq> x) cs)) < Suc (length cs)"
  using length_dropWhile_le [of "\<lambda>c. c \<noteq> x" cs] by simp

lemma nearest_subset: "set (tl (dropWhile (\<lambda>c. c \<noteq> x) cs)) \<subseteq> set cs"
proof
  fix a
  assume "a \<in> set (tl (dropWhile (\<lambda>c. c \<noteq> x) cs))"
  then have "a \<in> set (dropWhile (\<lambda>c. c \<noteq> x) cs)"
    by (cases "dropWhile (\<lambda>c. c \<noteq> x) cs") simp_all
  then show "a \<in> set cs" by (rule set_dropWhileD)
qed

lemma replaceBraces_strip:
  "\<forall>c\<in>set cs. \<not> isLineTerminator c \<Longrightarrow>
   replaceBraces cs = stripAnnotations [(0x007B, 0x007D)] cs"
proof (induction "length cs" arbitrary: cs rule: less_induct)
  case less
  show ?case
  proof (cases cs)
    case Nil
    then show ?thesis by simp
  next
    case (Cons c cs')
    have nl: "\<forall>c\<in>set cs'. \<not> isLineTerminator c" using less.prems Cons by simp
    let ?r = "tl (dropWhile (\<lambda>x. x \<noteq> 0x007D) cs')"
    show ?thesis
    proof (cases "c = 0x007B \<and> 0x007D \<in> set cs'")
      case True
      have "replaceBraces ?r = stripAnnotations [(0x007B, 0x007D)] ?r"
        using nearest_length [of "0x007D" cs'] nearest_subset [of "0x007D" cs'] nl Cons
        by (intro less.hyps) auto
      with True Cons nl show ?thesis by (simp add: lazyUntil_nearest)
    next
      case False
      have "replaceBraces cs' = stripAnnotations [(0x007B, 0x007D)] cs'"
        using nl Cons by (intro less.hyps) auto
      with False Cons nl show ?thesis by (auto simp: lazyUntil_nearest)
    qed
  qed
qed

lemma replaceBraces_subset: "set (replaceBraces cs) \<subseteq> set cs"
proof (induction "length cs" arbitrary: cs rule: less_induct)
  case less
  show ?case
  proof (cases cs)
    case Nil
    then show ?thesis by simp
  next
    case (Cons c cs')
    show ?thesis
    proof (cases "if c = 0x007B then lazyUntil 0x007D cs' else None")
      case None
      have "set (replaceBraces cs') \<subseteq> set cs'"
        using Cons by (intro less.hyps) simp
      with None Cons show ?thesis by auto
    next
      case (Some r)
      then have m: "lazyUntil 0x007D cs' = Some r" by (simp split: if_splits)
      have "set (replaceBraces r) \<subseteq> set r"
        using lazyUntil_length [OF m] Cons by (intro less.hyps) simp
      with lazyUntil_subset [OF m] Some Cons show ?thesis by auto
    qed
  qed
qed

lemma replaceParens_strip:
  "\<forall>c\<in>set cs. \<not> isLineTerminator c \<Longrightarrow>
   replaceParens cs = stripAnnotations [(0x0028, 0x0029), (0xFF08, 0xFF09)] cs"
proof (induction "length cs" arbitrary: cs rule: less_induct)
  case less
  show ?case
  proof (cases cs)
    case Nil
    then show ?thesis by simp
  next
    case (Cons c cs')
    have nl: "\<forall>c\<in>set cs'. \<not> isLineTerminator c" using less.prems Cons by simp
    have ih: "replaceParens (tl (dropWhile (\<lambda>c. c \<noteq> x) cs')) =
              stripAnnotations [(0x0028, 0x0029), (0xFF08, 0xFF09)] (tl (dropWhile (\<lambda>c. c \<noteq> x) cs'))" for x
      using nearest_length [of x cs'] nearest_subset [of x cs'] nl Cons
      by (intro less.hyps) auto
    have ih': "replaceParens cs' = stripAnnotations [(0x0028, 0x0029), (0xFF08, 0xFF09)] cs'"
      using nl Cons by (intro less.hyps) auto
    consider (ascii) "c = 0x0028" "0x0029 \<in> set cs'"
      | (full) "c = 0xFF08" "0xFF09 \<in> set cs'"
      | (none) "\<not> (c = 0x0028 \<and> 0x0029 \<in> set cs')" "\<not> (c = 0xFF08 \<and> 0xFF09 \<in> set cs')"
      by blast
    then show ?thesis
    proof cases
      case ascii
      with Cons nl ih [of "0x0029"] show ?thesis by (simp add: lazyUntil_nearest)
    next
      case full
      with Cons nl ih [of "0xFF09"] show ?thesis by (simp add: lazyUntil_nearest)
    next
      case none
      with Cons nl ih' show ?thesis by (auto simp: lazyUntil_nearest)
    qed
  qed
qed

lemma getVisibleCharCount_trim_spec: "getVisibleCharCount (trim text) = specVisibleChars text"
proof -
  let ?nl = "\<lambda>c::16 word. c \<noteq> 0x000A \<and> c \<noteq> 0x000D"
  let ?ws = "\<lambda>c. \<not> isWhiteSpace c"
  have swap: "filter ?ws (filter ?nl xs) = filter ?nl (filter ?ws xs)" for xs
    by (simp add: conj_commute)
  have clean: "filter ?ws (filter ?nl (trim text)) = filter ?ws (filter ?nl text)"
    by (simp only: swap filter_not_trim)
  have no_lt: "\<forall>c\<in>set (filter ?ws (filter ?nl text)). \<not> isLineTerminator c"
    using lineTerminator_isWhiteSpace by auto
  then have no_lt': "\<forall>c\<in>set (replaceBraces (filter ?ws (filter ?nl text))). \<not> isLineTerminator c"
    using replaceBraces_subset by blast
  have "getVisibleCharCount (trim text) =
        length (replaceParens (replaceBraces (replaceSpaces (replaceNewlines (trim text)))))"
    by (simp add: getVisibleCharCount_def)
  also have "\<dots> = length (replaceParens (replaceBraces (filter ?ws (filter ?nl text))))"
    by (simp only: replaceSpaces_filter replaceNewlines_filter clean)
  also have "\<dots> = length (stripAnnotations [(0x0028, 0x0029), (0xFF08, 0xFF09)]
                          (replaceBraces (filter ?ws (filter ?nl text))))"
    by (simp only: replaceParens_strip [OF no_lt'])
  also have "\<dots> = specVisibleChars text"
    unfolding specVisibleChars_def by (simp only: replaceBraces_strip [OF no_lt])
  finally show ?thesis .
qed

subsection \<open>The two outcomes of \<^verbatim>\<open>handleSubtitle\<close>\<close>

lemma handleSubtitle_skip:
  assumes "\<not> triggersPause s st text"
  shows "handleSubtitle s p text (st, w) =
           (if enabled st \<and> text \<noteq> [] \<and> trim text \<noteq> lastSubText st
            then st\<lparr>lastSubText := trim text\<rparr> else st, w)"
  using assms by (auto simp: handleSubtitle_def triggersPause_def Let_def)

lemma handleSubtitle_pause:
  assumes "triggersPause s st text" and "handleSubtitle s p text (st, w) = (st', w')"
  shows "timerId st' = Some (Suc (lastHandle w))"
    and "timers w' = timers w @ [\<lparr>handle = Suc (lastHandle w), callback = ResumeCb,
            delay = pauseDuration s (getVisibleCharCount (trim text)) * 1000\<rparr>]"
    and "calls w' = calls w @ [VideoPause]"
    and "paused w'" and "isAutoPaused st'" and "lastSubText st' = trim text"
    and "enabled st'" and "isPauseLocked st' = isPauseLocked st"
    and "lastHandle w' = Suc (lastHandle w)" and "osd w' = osd w"
  using assms
  by (cases p; auto simp: handleSubtitle_def triggersPause_def Let_def toggleUI_def videoPause_def
        setTimeout_def toggleSubtitles_def split: prod.splits)+

lemma pauseCount_calls: "calls w' = calls w @ [VideoPause] \<Longrightarrow> pauseCount w' = Suc (pauseCount w)"
  by (simp add: pauseCount_def)

text \<open>Unfolding these evaluates the handlers at a concrete input.\<close>

lemmas eval_defs = handleSubtitle_def getVisibleCharCount_def trim_def ascii_def isWhiteSpace_def
  isLineTerminator_def initialSettings_def initialState_def playingPage_def defaultHotkey_def pauseCount_def Let_def
  toggleUI_def videoPause_def setTimeout_def toggleSubtitles_def pauseDuration_def

subsection \<open>What the handlers change\<close>

lemmas handler_defs = keydown_def restoreUI_def toggleUI_def lockPause_def resumePlayback_def
  videoPlay_def ignorePlayInterruption_def showOSD_def setTimeout_def clearTimeout_def
  toggleSubtitles_def Let_def

lemma showOSD_frame:
  "paused (showOSD msg w) = paused w" "calls (showOSD msg w) = calls w"
  "subs (showOSD msg w) = subs w" "wrapper (showOSD msg w) = wrapper w"
  by (simp_all add: showOSD_def setTimeout_def clearTimeout_def Let_def split: option.splits)

lemma showOSD_osd:
  "\<exists>el. osd (showOSD msg w) = Some el \<and> innerText el = msg \<and> display el = ''block''"
  by (simp add: showOSD_def setTimeout_def clearTimeout_def Let_def split: option.splits)

lemma showOSD_resumeTimers: "set (resumeTimers (showOSD msg w)) \<subseteq> set (resumeTimers w)"
  by (auto simp: resumeTimers_def showOSD_def setTimeout_def clearTimeout_def Let_def
      split: option.splits)

lemma resumePlayback_state:
  "fst (resumePlayback s r (st, w)) = st\<lparr>timerId := None, isAutoPaused := False, isPauseLocked := False\<rparr>"
  by (simp add: resumePlayback_def videoPlay_def ignorePlayInterruption_def Let_def
      split: play_result.splits)

lemma resumePlayback_browser:
  "calls (snd (resumePlayback s r (st, w))) = calls w @ [VideoPlay]"
  "paused (snd (resumePlayback s r (st, w))) = (if r = Fulfilled then False else paused w)"
  "osd (snd (resumePlayback s r (st, w))) = osd w"
  "wrapper (snd (resumePlayback s r (st, w))) = wrapper w"
  "timers (snd (resumePlayback s r (st, w))) = filter (\<lambda>t. Some (handle t) \<noteq> timerId st) (timers w)"
  "subs (snd (resumePlayback s r (st, w))) = subs (if hide_subs s then toggleSubtitles s False w else w)"
  by (simp_all add: resumePlayback_def videoPlay_def ignorePlayInterruption_def Let_def
      clearTimeout_def toggleSubtitles_def split: play_result.splits option.splits)

lemma lockPause_state:
  "fst (lockPause (st, w)) = st\<lparr>timerId := None, isPauseLocked := True\<rparr>"
  by (cases "timerId st") (simp_all add: lockPause_def)

lemma lockPause_browser:
  "calls (snd (lockPause (st, w))) = calls w"
  "paused (snd (lockPause (st, w))) = paused w"
  "\<exists>el. osd (snd (lockPause (st, w))) = Some el \<and> innerText el = ''|| Pause Locked'' \<and> display el = ''block''"
  "\<forall>t \<in> set (resumeTimers (snd (lockPause (st, w)))). Some (handle t) \<noteq> timerId st"
proof -
  let ?w1 = "case timerId st of Some h \<Rightarrow> clearTimeout h w | None \<Rightarrow> w"
  have snd_eq: "snd (lockPause (st, w)) = showOSD ''|| Pause Locked'' ?w1"
    by (cases "timerId st") (simp_all add: lockPause_def)
  show "calls (snd (lockPause (st, w))) = calls w"
    by (cases "timerId st") (simp_all add: snd_eq showOSD_frame clearTimeout_def)
  show "paused (snd (lockPause (st, w))) = paused w"
    by (cases "timerId st") (simp_all add: snd_eq showOSD_frame clearTimeout_def)
  show "\<exists>el. osd (snd (lockPause (st, w))) = Some el \<and> innerText el = ''|| Pause Locked'' \<and> display el = ''block''"
    unfolding snd_eq by (rule showOSD_osd)
  have "\<forall>t \<in> set (resumeTimers ?w1). Some (handle t) \<noteq> timerId st"
    by (cases "timerId st") (auto simp: resumeTimers_def clearTimeout_def)
  with showOSD_resumeTimers [of "''|| Pause Locked''" ?w1]
  show "\<forall>t \<in> set (resumeTimers (snd (lockPause (st, w)))). Some (handle t) \<noteq> timerId st"
    unfolding snd_eq by blast
qed

lemma restoreUI_frame: "\<exists>u x. restoreUI p (st, w) = (st\<lparr>uiHidden := u\<rparr>, w\<lparr>wrapper := x\<rparr>)"
proof (cases "uiHidden st")
  case False
  then have "restoreUI p (st, w) = (st\<lparr>uiHidden := uiHidden st\<rparr>, w\<lparr>wrapper := wrapper w\<rparr>)"
    by (simp add: restoreUI_def)
  then show ?thesis by blast
next
  case True
  show ?thesis
  proof (cases p)
    case Youtube
    with True have "restoreUI p (st, w) = (st\<lparr>uiHidden := uiHidden st\<rparr>, w\<lparr>wrapper := wrapper w\<rparr>)"
      by (simp add: restoreUI_def toggleUI_def)
    then show ?thesis by blast
  next
    case Netflix
    with True show ?thesis by (simp add: restoreUI_def toggleUI_def) blast
  qed
qed

lemma keydown_interaction:
  assumes "enabled st" and "isAutoPaused st" and "isInteractionKey e" and "\<not> matchesHotkey s e"
    and "restoreUI p (st, w) = (st\<lparr>uiHidden := u\<rparr>, w\<lparr>wrapper := x\<rparr>)"
  shows "keydown s p r e (st, w) =
          (if \<not> isPauseLocked st
           then lockPause (st\<lparr>uiHidden := u\<rparr>,
                  w\<lparr>wrapper := x, calls := calls w @ [PreventDefault, StopPropagation]\<rparr>)
           else resumePlayback s r (st\<lparr>uiHidden := u\<rparr>,
                  w\<lparr>wrapper := x, calls := calls w @ [PreventDefault, StopPropagation]\<rparr>))"
  using assms by (simp add: keydown_def Let_def)

lemma keydown_disable:
  assumes "enabled st" and "isAutoPaused st" and "matchesHotkey s e"
    and "restoreUI p (st, w) = (st\<lparr>uiHidden := u\<rparr>, w\<lparr>wrapper := x\<rparr>)"
    and "resumePlayback s r (st\<lparr>uiHidden := u, enabled := False\<rparr>,
            showOSD ''Primed Listening: OFF'' (w\<lparr>wrapper := x\<rparr>)) = (st2, w2)"
  shows "keydown s p r e (st, w) = restoreUI p (st2, toggleSubtitles s True w2)"
  using assms by (simp add: keydown_def Let_def)

lemma afterFirstLine_eq:
  "afterFirstLine =
     (\<lparr>enabled = True, isAutoPaused = True, isPauseLocked = False, timerId = Some 1,
       lastSubText = ascii ''Hello there'', uiHidden = True\<rparr>,
      \<lparr>paused = True, calls = [VideoPause], subs = [{}], wrapper = {''pl-netflix-ui-hidden''},
       osd = None, timers = [\<lparr>handle = 1, callback = ResumeCb, delay = 600\<rparr>],
       lastHandle = 1\<rparr>)"
  by (simp add: afterFirstLine_def eval_defs)

lemma afterSecondLine_eq:
  "afterSecondLine =
     (\<lparr>enabled = True, isAutoPaused = True, isPauseLocked = False, timerId = Some 2,
       lastSubText = ascii ''General Kenobi'', uiHidden = True\<rparr>,
      \<lparr>paused = True, calls = [VideoPause, VideoPause], subs = [{}],
       wrapper = {''pl-netflix-ui-hidden''}, osd = None,
       timers = [\<lparr>handle = 1, callback = ResumeCb, delay = 600\<rparr>,
                 \<lparr>handle = 2, callback = ResumeCb, delay = 780\<rparr>],
       lastHandle = 2\<rparr>)"
proof -
  have "forwardedText afterFirstLine (Returned (ascii ''General Kenobi''))
          = Some (ascii ''General Kenobi'')"
    by (simp add: afterFirstLine_eq forwardedText_def ascii_def)
  then have "afterSecondLine
          = handleSubtitle initialSettings Netflix (ascii ''General Kenobi'') afterFirstLine"
    by (simp add: afterSecondLine_def observerCallback_def)
  then have eq: "afterSecondLine
          = handleSubtitle initialSettings Netflix (ascii ''General Kenobi'') afterFirstLine" .
  show ?thesis unfolding eq
    by (simp add: afterFirstLine_eq eval_defs)
qed

lemma lockedAfterFirstLine_eq:
  "lockedAfterFirstLine =
     (\<lparr>enabled = True, isAutoPaused = True, isPauseLocked = True, timerId = None,
       lastSubText = ascii ''Hello there'', uiHidden = False\<rparr>,
      \<lparr>paused = True, calls = [VideoPause, PreventDefault, StopPropagation],
       subs = [{}], wrapper = {},
       osd = Some \<lparr>innerText = ''|| Pause Locked'', display = ''block'', hideTimer = Some 2\<rparr>,
       timers = [\<lparr>handle = 2, callback = OsdHideCb, delay = 2000\<rparr>],
       lastHandle = 2\<rparr>)"
  unfolding lockedAfterFirstLine_def
  by (simp add: afterFirstLine_eq isInteractionKey_def matchesHotkey_def spaceKey_def
      initialSettings_def defaultHotkey_def handler_defs)

lemma secondLineWhileLocked_eq:
  "secondLineWhileLocked =
     (\<lparr>enabled = True, isAutoPaused = True, isPauseLocked = True, timerId = Some 3,
       lastSubText = ascii ''General Kenobi'', uiHidden = True\<rparr>,
      \<lparr>paused = True, calls = [VideoPause, PreventDefault, StopPropagation, VideoPause],
       subs = [{}], wrapper = {''pl-netflix-ui-hidden''},
       osd = Some \<lparr>innerText = ''|| Pause Locked'', display = ''block'', hideTimer = Some 2\<rparr>,
       timers = [\<lparr>handle = 2, callback = OsdHideCb, delay = 2000\<rparr>,
                 \<lparr>handle = 3, callback = ResumeCb, delay = 780\<rparr>],
       lastHandle = 3\<rparr>)"
proof -
  have "forwardedText lockedAfterFirstLine (Returned (ascii ''General Kenobi''))
          = Some (ascii ''General Kenobi'')"
    by (simp add: lockedAfterFirstLine_eq forwardedText_def ascii_def)
  then have eq: "secondLineWhileLocked
          = handleSubtitle initialSettings Netflix (ascii ''General Kenobi'') lockedAfterFirstLine"
    by (simp add: secondLineWhileLocked_def observerCallback_def)
  show ?thesis unfolding eq
    by (simp add: lockedAfterFirstLine_eq eval_defs)
qed

subsection \<open>Delivering the same text twice\<close>

lemma handleSubtitle_enabled: "enabled (fst (handleSubtitle s p text (st, w))) = enabled st"
proof (cases "triggersPause s st text")
  case True
  obtain st' w' where run: "handleSubtitle s p text (st, w) = (st', w')"
    by (cases "handleSubtitle s p text (st, w)")
  from handleSubtitle_pause(7) [OF True run] True run show ?thesis
    by (simp add: triggersPause_def)
next
  case False
  then show ?thesis by (simp add: handleSubtitle_skip)
qed

lemma handleSubtitle_idem:
  "handleSubtitle s p text (handleSubtitle s p text (st, w)) = handleSubtitle s p text (st, w)"
proof (cases "triggersPause s st text")
  case True
  obtain st' w' where run: "handleSubtitle s p text (st, w) = (st', w')"
    by (cases "handleSubtitle s p text (st, w)")
  have "lastSubText st' = trim text" by (rule handleSubtitle_pause(6) [OF True run])
  then have "\<not> triggersPause s st' text" by (simp add: triggersPause_def)
  from handleSubtitle_skip [OF this, of p w'] \<open>lastSubText st' = trim text\<close> run
  show ?thesis by simp
next
  case False
  let ?st1 = "if enabled st \<and> text \<noteq> [] \<and> trim text \<noteq> lastSubText st
              then st\<lparr>lastSubText := trim text\<rparr> else st"
  have run: "handleSubtitle s p text (st, w) = (?st1, w)"
    by (rule handleSubtitle_skip [OF False])
  have "\<not> triggersPause s ?st1 text" using False by (simp add: triggersPause_def)
  from handleSubtitle_skip [OF this, of p w] run show ?thesis by simp
qed

lemma observerCallback_idem:
  "observerCallback s p g (observerCallback s p g (st, w)) = observerCallback s p g (st, w)"
proof (cases "forwardedText (st, w) g")
  case None
  then show ?thesis by (simp add: observerCallback_def)
next
  case (Some t0)
  then have gate: "enabled st" "\<not> (paused w \<and> \<not> isAutoPaused st)" "g = Returned t0"
    by (auto simp: forwardedText_def split: if_splits outcome.splits)
  have ne: "t0 \<noteq> []" using Some by (auto simp: forwardedText_def split: if_splits outcome.splits)
  obtain st1 w1 where run: "handleSubtitle s p t0 (st, w) = (st1, w1)"
    by (cases "handleSubtitle s p t0 (st, w)")
  have en: "enabled st1" using handleSubtitle_enabled [of s p t0 st w] run gate(1) by simp
  have open1: "\<not> (paused w1 \<and> \<not> isAutoPaused st1)"
  proof (cases "triggersPause s st t0")
    case True
    from handleSubtitle_pause(5) [OF True run] show ?thesis by simp
  next
    case False
    from handleSubtitle_skip [OF False, of p w] run gate(2) show ?thesis by auto
  qed
  from en open1 gate(3) ne have "forwardedText (st1, w1) g = Some t0"
    by (simp add: forwardedText_def)
  with Some run handleSubtitle_idem [of s p t0 st w] show ?thesis
    by (simp add: observerCallback_def)
qed

subsection \<open>The outcomes of the older \<^verbatim>\<open>handleSubtitle\<close>\<close>

lemma handleSubtitle_part002_skip:
  assumes "\<not> triggersPause s st text"
  shows "handleSubtitle_part002 s text (st, w) =
           (if enabled st \<and> text \<noteq> [] \<and> trim text \<noteq> lastSubText st
            then st\<lparr>lastSubText := trim text\<rparr> else st, w)"
  using assms by (auto simp: handleSubtitle_part002_def triggersPause_def Let_def)

lemma handleSubtitle_part002_pause:
  assumes "triggersPause s st text"
  shows "handleSubtitle_part002 s text (st, w) =
           (st\<lparr>lastSubText := trim text, isAutoPaused := True, timerId := Some (Suc (lastHandle w))\<rparr>,
            (if hide_subs s then toggleSubtitles s True (videoPause w) else videoPause w)
              \<lparr>timers := timers w @ [\<lparr>handle = Suc (lastHandle w), callback = ResumeCb,
                   delay = pauseDuration_part002 s (getVisibleCharCount (trim text)) * 1000\<rparr>],
                lastHandle := Suc (lastHandle w)\<rparr>)"
  using assms
  by (auto simp: handleSubtitle_part002_def triggersPause_def Let_def setTimeout_def
      toggleSubtitles_def videoPause_def)

lemma handleSubtitle_pause_state:
  assumes "triggersPause s st text"
  shows "state_part002.truncate (fst (handleSubtitle s p text (st, w))) =
           state_part002.truncate st\<lparr>lastSubText := trim text, isAutoPaused := True,
              timerId := Some (Suc (lastHandle w))\<rparr>"
  using assms
  by (cases p) (auto simp: handleSubtitle_def triggersPause_def Let_def setTimeout_def
      toggleUI_def toggleSubtitles_def videoPause_def state_part002.truncate_def
      split: prod.splits)

section \<open>The claims\<close>

subsection \<open>C1: the pause duration\<close>

text \<open>
  Claim C1.  Whenever a subtitle event triggers a pause (\<^verbatim>\<open>video.pause()\<close> is called), the
  resume timer armed by that event runs for
  \<open>min(maxPause, max(minPause, chars * pausePerChar))\<close> seconds, where \<open>chars\<close> is the
  number of code units left of the subtitle text after stripping newlines, all white
  space, paired-brace annotations and paired-parenthesis annotations, ASCII and
  fullwidth (\<open>specVisibleChars\<close>; the script counts on the trimmed text, which makes no
  difference).  With \<open>pausePerChar = 0.06\<close>, \<open>minPause = 0.5\<close> and \<open>maxPause = 10.0\<close>,
  20 characters give 1.2 seconds, 2 characters give 0.5 and 1000 characters give 10.0.
\<close>

theorem pause_duration_formula:
  "(handleSubtitle s p text (st, w) = (st', w') \<and> pauseCount w' \<noteq> pauseCount w \<longrightarrow>
      (\<exists>h. timerId st' = Some h \<and>
           timers w' = timers w @ [\<lparr>handle = h, callback = ResumeCb,
             delay = 1000 * min (max_pause s)
                       (max (min_pause s) (real (specVisibleChars text) * pause_per_char s))\<rparr>]))
   \<and> (pause_per_char s = 0.06 \<and> min_pause s = 0.5 \<and> max_pause s = 10.0 \<longrightarrow>
        pauseDuration s 20 = 1.2 \<and> pauseDuration s 2 = 0.5 \<and> pauseDuration s 1000 = 10.0)"
proof (intro conjI impI)
  assume a: "handleSubtitle s p text (st, w) = (st', w') \<and> pauseCount w' \<noteq> pauseCount w"
  have trig: "triggersPause s st text"
  proof (rule ccontr)
    assume "\<not> triggersPause s st text"
    from handleSubtitle_skip [OF this, of p w] a show False by simp
  qed
  from a have run: "handleSubtitle s p text (st, w) = (st', w')" by simp
  have "timers w' = timers w @ [\<lparr>handle = Suc (lastHandle w), callback = ResumeCb,
          delay = pauseDuration s (specVisibleChars text) * 1000\<rparr>]"
    using handleSubtitle_pause(2) [OF trig run] by (simp only: getVisibleCharCount_trim_spec)
  moreover have "timerId st' = Some (Suc (lastHandle w))"
    by (rule handleSubtitle_pause(1) [OF trig run])
  ultimately show "\<exists>h. timerId st' = Some h \<and>
           timers w' = timers w @ [\<lparr>handle = h, callback = ResumeCb,
             delay = 1000 * min (max_pause s)
                       (max (min_pause s) (real (specVisibleChars text) * pause_per_char s))\<rparr>]"
    by (simp add: pauseDuration_def Let_def mult.commute)
next
  assume "pause_per_char s = 0.06 \<and> min_pause s = 0.5 \<and> max_pause s = 10.0"
  then show "pauseDuration s 20 = 1.2" by (simp add: pauseDuration_def)
next
  assume "pause_per_char s = 0.06 \<and> min_pause s = 0.5 \<and> max_pause s = 10.0"
  then show "pauseDuration s 2 = 0.5" by (simp add: pauseDuration_def)
next
  assume "pause_per_char s = 0.06 \<and> min_pause s = 0.5 \<and> max_pause s = 10.0"
  then show "pauseDuration s 1000 = 10.0" by (simp add: pauseDuration_def)
qed

theorem pause_duration_formula_witness:
  "pauseCount (snd (handleSubtitle (initialSettings\<lparr>max_pause := 10.0\<rparr>) Netflix
        (ascii ''The quick (aside) brown fox jump'') (initialState\<lparr>enabled := True\<rparr>, playingPage)))
     \<noteq> pauseCount playingPage
   \<and> timers (snd (handleSubtitle (initialSettings\<lparr>max_pause := 10.0\<rparr>) Netflix
        (ascii ''The quick (aside) brown fox jump'') (initialState\<lparr>enabled := True\<rparr>, playingPage)))
      = [\<lparr>handle = 1, callback = ResumeCb, delay = 1200\<rparr>]
   \<and> pauseDuration (initialSettings\<lparr>max_pause := 10.0\<rparr>) 1000 = 10"
proof -
  let ?s = "initialSettings\<lparr>max_pause := 10.0\<rparr>"
  let ?t = "ascii ''The quick (aside) brown fox jump''"
  let ?m = "handleSubtitle ?s Netflix ?t (initialState\<lparr>enabled := True\<rparr>, playingPage)"
  have hyp: "pauseCount (snd ?m) \<noteq> pauseCount playingPage"
    by (simp add: eval_defs)
  have chars: "specVisibleChars ?t = 20"
    by (simp add: specVisibleChars_def ascii_def isWhiteSpace_def)
  have cfg: "pause_per_char ?s = 0.06 \<and> min_pause ?s = 0.5 \<and> max_pause ?s = 10.0"
    by (simp add: initialSettings_def)
  have h1: "timerId (fst ?m) = Some 1" by (simp add: eval_defs)
  from pause_duration_formula [of ?s Netflix ?t "initialState\<lparr>enabled := True\<rparr>" playingPage
      "fst ?m" "snd ?m"] hyp chars cfg h1
  show ?thesis by (simp add: playingPage_def initialSettings_def)
qed

subsection \<open>C2: a line below \<^verbatim>\<open>min_chars\<close>\<close>

text \<open>
  Claim C2 says that a subtitle whose text differs from \<^verbatim>\<open>lastSubText\<close> but has fewer
  visible characters than \<^verbatim>\<open>min_chars\<close> triggers no pause and leaves \<^verbatim>\<open>lastSubText\<close>
  as it was.  The script assigns \<^verbatim>\<open>lastSubText\<close> before it counts the characters: with
  the initial settings the one-letter line \<^verbatim>\<open>a\<close> triggers no pause, yet it is
  recorded.
\<close>

theorem short_line_updates_lastText_counterexample:
  "enabled (initialState\<lparr>enabled := True\<rparr>)
   \<and> ascii ''a'' \<noteq> lastSubText (initialState\<lparr>enabled := True\<rparr>)
   \<and> getVisibleCharCount (trim (ascii ''a'')) < min_chars initialSettings
   \<and> handleSubtitle initialSettings Youtube (ascii ''a'') (initialState\<lparr>enabled := True\<rparr>, playingPage)
       = (initialState\<lparr>enabled := True, lastSubText := ascii ''a''\<rparr>, playingPage)
   \<and> lastSubText (fst (handleSubtitle initialSettings Youtube (ascii ''a'')
                          (initialState\<lparr>enabled := True\<rparr>, playingPage)))
       \<noteq> lastSubText (initialState\<lparr>enabled := True\<rparr>)"
  by (simp add: eval_defs)

text \<open>
  Claim C2, as the script does it.  When the script is enabled and the trimmed text
  of a non-empty subtitle differs from \<^verbatim>\<open>lastSubText\<close> but has fewer visible characters
  than \<^verbatim>\<open>min_chars\<close>, the event triggers no pause (the browser is untouched) and
  \<^verbatim>\<open>lastSubText\<close> becomes the trimmed text.  A repeat of the same line is then dropped
  by the comparison with \<^verbatim>\<open>lastSubText\<close>, again without a pause, and a later line with
  at least \<^verbatim>\<open>min_chars\<close> visible characters is not blocked: it pauses the video.
\<close>

theorem short_line_no_pause_lastText_updated:
  assumes "enabled st" and "text \<noteq> []" and "trim text \<noteq> lastSubText st"
    and "getVisibleCharCount (trim text) < min_chars s"
  shows "handleSubtitle s p text (st, w) = (st\<lparr>lastSubText := trim text\<rparr>, w)
    \<and> handleSubtitle s p text (st\<lparr>lastSubText := trim text\<rparr>, w) = (st\<lparr>lastSubText := trim text\<rparr>, w)
    \<and> (\<forall>later. later \<noteq> [] \<and> \<not> getVisibleCharCount (trim later) < min_chars s \<longrightarrow>
          pauseCount (snd (handleSubtitle s p later (st\<lparr>lastSubText := trim text\<rparr>, w)))
            = Suc (pauseCount w))"
proof (intro conjI allI impI)
  have "\<not> triggersPause s st text" using assms(4) by (simp add: triggersPause_def)
  from handleSubtitle_skip [OF this] assms(1-3)
  show "handleSubtitle s p text (st, w) = (st\<lparr>lastSubText := trim text\<rparr>, w)" by simp
next
  have "\<not> triggersPause s (st\<lparr>lastSubText := trim text\<rparr>) text" by (simp add: triggersPause_def)
  from handleSubtitle_skip [OF this]
  show "handleSubtitle s p text (st\<lparr>lastSubText := trim text\<rparr>, w) = (st\<lparr>lastSubText := trim text\<rparr>, w)"
    by simp
next
  fix later
  assume l: "later \<noteq> [] \<and> \<not> getVisibleCharCount (trim later) < min_chars s"
  with assms(4) have "trim later \<noteq> trim text" by auto
  with l assms(1) have trig: "triggersPause s (st\<lparr>lastSubText := trim text\<rparr>) later"
    by (simp add: triggersPause_def)
  obtain st' w' where run: "handleSubtitle s p later (st\<lparr>lastSubText := trim text\<rparr>, w) = (st', w')"
    by (cases "handleSubtitle s p later (st\<lparr>lastSubText := trim text\<rparr>, w)")
  from handleSubtitle_pause(3) [OF trig run] run
  show "pauseCount (snd (handleSubtitle s p later (st\<lparr>lastSubText := trim text\<rparr>, w))) = Suc (pauseCount w)"
    by (simp add: pauseCount_calls)
qed

theorem short_line_no_pause_lastText_updated_witness:
  "handleSubtitle initialSettings Netflix (ascii '' (x) a '') (initialState\<lparr>enabled := True\<rparr>, playingPage)
     = (initialState\<lparr>enabled := True, lastSubText := ascii ''(x) a''\<rparr>, playingPage)
   \<and> handleSubtitle initialSettings Netflix (ascii '' (x) a '')
        (initialState\<lparr>enabled := True, lastSubText := ascii ''(x) a''\<rparr>, playingPage)
     = (initialState\<lparr>enabled := True, lastSubText := ascii ''(x) a''\<rparr>, playingPage)
   \<and> pauseCount (snd (handleSubtitle initialSettings Netflix (ascii ''(x) ab'')
        (initialState\<lparr>enabled := True, lastSubText := ascii ''(x) a''\<rparr>, playingPage))) = 1"
proof -
  let ?st = "initialState\<lparr>enabled := True\<rparr>"
  let ?t = "ascii '' (x) a ''"
  have h1: "enabled ?st" by (simp add: initialState_def)
  have h2: "?t \<noteq> []" by (simp add: ascii_def)
  have tr: "trim ?t = ascii ''(x) a''" by (simp add: trim_def ascii_def isWhiteSpace_def)
  have h3: "trim ?t \<noteq> lastSubText ?st" by (simp add: tr) (simp add: ascii_def initialState_def)
  have h4: "getVisibleCharCount (trim ?t) < min_chars initialSettings"
    by (simp add: tr) (simp add: eval_defs)
  have l1: "ascii ''(x) ab'' \<noteq> []" by (simp add: ascii_def)
  have l2: "\<not> getVisibleCharCount (trim (ascii ''(x) ab'')) < min_chars initialSettings"
    by (simp add: eval_defs)
  from short_line_no_pause_lastText_updated [OF h1 h2 h3 h4, of Netflix playingPage] l1 l2
  show ?thesis by (simp add: tr) (simp add: playingPage_def pauseCount_def)
qed

subsection \<open>C3: one resume timer\<close>

text \<open>
  Claim C3 says that at most one resume timer is ever armed, because arming disarms
  the previous timer first.  \<^verbatim>\<open>resumePlayback\<close> and \<^verbatim>\<open>lockPause\<close> clear the timer stored
  in \<^verbatim>\<open>timerId\<close> before they drop the handle, and \<^verbatim>\<open>showOSD\<close> clears its fade-out timer
  before it arms the next one, but \<^verbatim>\<open>handleSubtitle\<close> overwrites \<^verbatim>\<open>timerId\<close> with a new
  timer and leaves the old one pending.  The run below starts a session on Netflix:
  the line "Hello there" pauses the video and arms timer 1; the line "General Kenobi",
  delivered during that pause, arms timer 2 while timer 1 stays armed.  The Space key
  then locks the pause and cancels timer 2 only; when timer 1 expires the script
  resumes playback although the pause is locked.
\<close>

theorem second_pause_orphans_resume_timer:
  "afterFirstLine = observerCallback initialSettings Netflix (Returned (ascii ''Hello there''))
                      (initialState\<lparr>enabled := True\<rparr>, playingPage)
   \<and> map handle (resumeTimers (snd afterFirstLine)) = [1]
   \<and> timerId (fst afterSecondLine) = Some 2
   \<and> map handle (resumeTimers (snd afterSecondLine)) = [1, 2]
   \<and> isPauseLocked (fst (keydown initialSettings Netflix Fulfilled spaceKey afterSecondLine))
   \<and> map handle (resumeTimers (snd (keydown initialSettings Netflix Fulfilled spaceKey
         afterSecondLine))) = [1]
   \<and> \<not> isPauseLocked (fst (timerFires initialSettings Fulfilled 1
         (keydown initialSettings Netflix Fulfilled spaceKey afterSecondLine)))
   \<and> \<not> paused (snd (timerFires initialSettings Fulfilled 1
         (keydown initialSettings Netflix Fulfilled spaceKey afterSecondLine)))"
proof -
  have first: "afterFirstLine = observerCallback initialSettings Netflix
      (Returned (ascii ''Hello there'')) (initialState\<lparr>enabled := True\<rparr>, playingPage)"
    by (simp add: afterFirstLine_def observerCallback_def forwardedText_def initialState_def
        playingPage_def ascii_def)
  have one: "map handle (resumeTimers (snd afterFirstLine)) = [1]"
    by (simp add: afterFirstLine_eq resumeTimers_def)
  have two: "timerId (fst afterSecondLine) = Some 2"
    "map handle (resumeTimers (snd afterSecondLine)) = [1, 2]"
    by (simp_all add: afterSecondLine_eq resumeTimers_def)
  have locked: "keydown initialSettings Netflix Fulfilled spaceKey afterSecondLine =
     (\<lparr>enabled = True, isAutoPaused = True, isPauseLocked = True, timerId = None,
       lastSubText = ascii ''General Kenobi'', uiHidden = False\<rparr>,
      \<lparr>paused = True, calls = [VideoPause, VideoPause, PreventDefault, StopPropagation],
       subs = [{}], wrapper = {},
       osd = Some \<lparr>innerText = ''|| Pause Locked'', display = ''block'', hideTimer = Some 3\<rparr>,
       timers = [\<lparr>handle = 1, callback = ResumeCb, delay = 600\<rparr>,
                 \<lparr>handle = 3, callback = OsdHideCb, delay = 2000\<rparr>],
       lastHandle = 3\<rparr>)"
    by (simp add: afterSecondLine_eq isInteractionKey_def matchesHotkey_def spaceKey_def
        initialSettings_def defaultHotkey_def handler_defs)
  have fired: "\<not> isPauseLocked (fst (timerFires initialSettings Fulfilled 1
         (keydown initialSettings Netflix Fulfilled spaceKey afterSecondLine)))"
    "\<not> paused (snd (timerFires initialSettings Fulfilled 1
         (keydown initialSettings Netflix Fulfilled spaceKey afterSecondLine)))"
    unfolding locked
    by (simp_all add: timerFires_def initialSettings_def handler_defs)
  from first one two fired show ?thesis
    unfolding locked by (simp add: resumeTimers_def)
qed

theorem second_pause_orphans_resume_timer_witness:
  "length (resumeTimers (snd afterSecondLine)) = 2
   \<and> \<not> isPauseLocked (fst (timerFires initialSettings Fulfilled 1
         (keydown initialSettings Netflix Fulfilled spaceKey afterSecondLine)))"
proof -
  have "length (resumeTimers (snd afterSecondLine))
          = length (map handle (resumeTimers (snd afterSecondLine)))"
    by simp
  with second_pause_orphans_resume_timer show ?thesis
    by (simp only: list.size length_Cons) simp
qed

subsection \<open>C4: subtitle events during an auto-pause\<close>

text \<open>
  Claim C4.  No subtitle event delivered while the script holds the pause may trigger
  a second pause or arm a timer, whatever the new text.  \<^verbatim>\<open>handleSubtitle\<close> never reads
  \<^verbatim>\<open>isAutoPaused\<close> or \<^verbatim>\<open>isPauseLocked\<close>, while the observer admits events during an
  auto-pause, so the script does both.  In the run below the line "Hello there" pauses
  the video; delivered during that pause, the line "General Kenobi" calls
  \<^verbatim>\<open>video.pause()\<close> a second time.  When the Space key has locked the first pause (no
  resume timer is left), the same line again calls \<^verbatim>\<open>video.pause()\<close> and arms timer 3;
  its expiry clears the lock and resumes playback without any key press, although
  \<^verbatim>\<open>lockPause\<close> is documented as preventing auto-resume until the user intervenes.
\<close>

theorem second_pause_while_locked_ends_lock:
  "isAutoPaused (fst afterFirstLine) \<and> pauseCount (snd afterFirstLine) = 1
   \<and> pauseCount (snd afterSecondLine) = 2
   \<and> isAutoPaused (fst lockedAfterFirstLine) \<and> isPauseLocked (fst lockedAfterFirstLine)
   \<and> timerId (fst lockedAfterFirstLine) = None \<and> resumeTimers (snd lockedAfterFirstLine) = []
   \<and> pauseCount (snd lockedAfterFirstLine) = 1
   \<and> pauseCount (snd secondLineWhileLocked) = 2
   \<and> isPauseLocked (fst secondLineWhileLocked)
   \<and> timerId (fst secondLineWhileLocked) = Some 3
   \<and> resumeTimers (snd secondLineWhileLocked) = [\<lparr>handle = 3, callback = ResumeCb, delay = 780\<rparr>]
   \<and> \<not> isPauseLocked (fst (timerFires initialSettings Fulfilled 3 secondLineWhileLocked))
   \<and> \<not> isAutoPaused (fst (timerFires initialSettings Fulfilled 3 secondLineWhileLocked))
   \<and> calls (snd (timerFires initialSettings Fulfilled 3 secondLineWhileLocked))
       = [VideoPause, PreventDefault, StopPropagation, VideoPause, VideoPlay]
   \<and> \<not> paused (snd (timerFires initialSettings Fulfilled 3 secondLineWhileLocked))"
proof -
  have first: "isAutoPaused (fst afterFirstLine)" "pauseCount (snd afterFirstLine) = 1"
    by (simp_all add: afterFirstLine_eq pauseCount_def)
  have second: "pauseCount (snd afterSecondLine) = 2"
    by (simp add: afterSecondLine_eq pauseCount_def)
  have locked: "isAutoPaused (fst lockedAfterFirstLine)" "isPauseLocked (fst lockedAfterFirstLine)"
    "timerId (fst lockedAfterFirstLine) = None" "resumeTimers (snd lockedAfterFirstLine) = []"
    "pauseCount (snd lockedAfterFirstLine) = 1"
    by (simp_all add: lockedAfterFirstLine_eq resumeTimers_def pauseCount_def)
  have again: "pauseCount (snd secondLineWhileLocked) = 2"
    "isPauseLocked (fst secondLineWhileLocked)"
    "timerId (fst secondLineWhileLocked) = Some 3"
    "resumeTimers (snd secondLineWhileLocked) = [\<lparr>handle = 3, callback = ResumeCb, delay = 780\<rparr>]"
    by (simp_all add: secondLineWhileLocked_eq resumeTimers_def pauseCount_def)
  have fired: "timerFires initialSettings Fulfilled 3 secondLineWhileLocked =
     (\<lparr>enabled = True, isAutoPaused = False, isPauseLocked = False, timerId = None,
       lastSubText = ascii ''General Kenobi'', uiHidden = True\<rparr>,
      \<lparr>paused = False, calls = [VideoPause, PreventDefault, StopPropagation, VideoPause, VideoPlay],
       subs = [{}], wrapper = {''pl-netflix-ui-hidden''},
       osd = Some \<lparr>innerText = ''|| Pause Locked'', display = ''block'', hideTimer = Some 2\<rparr>,
       timers = [\<lparr>handle = 2, callback = OsdHideCb, delay = 2000\<rparr>],
       lastHandle = 3\<rparr>)"
    by (simp add: secondLineWhileLocked_eq timerFires_def initialSettings_def handler_defs)
  from first second locked again show ?thesis
    unfolding fired by simp
qed

theorem second_pause_while_locked_ends_lock_witness:
  "pauseCount (snd secondLineWhileLocked) = Suc (pauseCount (snd lockedAfterFirstLine))
   \<and> isPauseLocked (fst secondLineWhileLocked)
   \<and> \<not> isPauseLocked (fst (timerFires initialSettings Fulfilled 3 secondLineWhileLocked))"
  using second_pause_while_locked_ends_lock by simp

subsection \<open>C5: the same text twice\<close>

text \<open>
  Claim C5 says that two consecutive events with the same text result in exactly one
  pause, for every text and every state.  The second event never pauses, but the
  first one need not either: the annotation "(music)" has no visible character, and
  delivering it twice to the enabled script pauses nothing.
\<close>

theorem repeated_text_exactly_one_pause_counterexample:
  "pauseCount playingPage = 0
   \<and> pauseCount (snd (handleSubtitle initialSettings Youtube (ascii ''(music)'')
        (handleSubtitle initialSettings Youtube (ascii ''(music)'')
          (initialState\<lparr>enabled := True\<rparr>, playingPage)))) = 0"
  by (simp add: eval_defs)

text \<open>
  Claim C5, as the script does it.  For every text and every state the second of two
  consecutive events with the same text changes nothing, whether it is handed to
  \<^verbatim>\<open>handleSubtitle\<close> directly or goes through the observer; the two events together
  call \<^verbatim>\<open>video.pause()\<close> once when the first event passes the checks of
  \<^verbatim>\<open>handleSubtitle\<close> and not at all otherwise.
\<close>

theorem repeated_text_second_is_noop:
  "handleSubtitle s p text (handleSubtitle s p text (st, w)) = handleSubtitle s p text (st, w)
   \<and> observerCallback s p g (observerCallback s p g (st, w)) = observerCallback s p g (st, w)
   \<and> pauseCount (snd (handleSubtitle s p text (handleSubtitle s p text (st, w))))
       = pauseCount w + (if triggersPause s st text then 1 else 0)"
proof -
  obtain st' w' where run: "handleSubtitle s p text (st, w) = (st', w')"
    by (cases "handleSubtitle s p text (st, w)")
  have "pauseCount w' = pauseCount w + (if triggersPause s st text then 1 else 0)"
  proof (cases "triggersPause s st text")
    case True
    from pauseCount_calls [OF handleSubtitle_pause(3) [OF True run]] True show ?thesis by simp
  next
    case False
    from handleSubtitle_skip [OF False, of p w] run False show ?thesis by simp
  qed
  moreover have "handleSubtitle s p text (st', w') = (st', w')"
    using handleSubtitle_idem [of s p "text" st w] run by simp
  ultimately show ?thesis
    by (simp add: run observerCallback_idem)
qed

theorem repeated_text_second_is_noop_witness:
  "triggersPause initialSettings (initialState\<lparr>enabled := True\<rparr>) (ascii ''Hello there'')
   \<and> handleSubtitle initialSettings Netflix (ascii ''Hello there'') afterFirstLine = afterFirstLine
   \<and> pauseCount (snd (handleSubtitle initialSettings Netflix (ascii ''Hello there'')
        afterFirstLine)) = 1"
proof -
  have t: "triggersPause initialSettings (initialState\<lparr>enabled := True\<rparr>) (ascii ''Hello there'')"
    by (simp add: triggersPause_def eval_defs)
  have z: "pauseCount playingPage = 0"
    by (simp add: playingPage_def pauseCount_def)
  note twice = repeated_text_second_is_noop [of initialSettings Netflix "ascii ''Hello there''"
      "initialState\<lparr>enabled := True\<rparr>" playingPage "Returned (ascii ''Hello there'')"]
  from twice [THEN conjunct1] twice [THEN conjunct2, THEN conjunct2] t z
  show ?thesis unfolding afterFirstLine_def by simp
qed

subsection \<open>C6: the interaction keys\<close>

text \<open>
  Claim C6 says that in every auto-paused, unlocked state an interaction key locks the
  pause.  The handler looks for the toggle chord first and returns from that branch,
  and \<^verbatim>\<open>e.key === 'p'\<close> also holds for the default chord Alt+P: pressed during an
  auto-pause it switches the script off and resumes playback, and nothing is locked.
\<close>

theorem interaction_key_matching_hotkey_counterexample:
  "enabled (fst afterFirstLine) \<and> isAutoPaused (fst afterFirstLine)
   \<and> \<not> isPauseLocked (fst afterFirstLine) \<and> isInteractionKey altP
   \<and> \<not> isPauseLocked (fst (keydown initialSettings Netflix Fulfilled altP afterFirstLine))
   \<and> \<not> enabled (fst (keydown initialSettings Netflix Fulfilled altP afterFirstLine))
   \<and> calls (snd (keydown initialSettings Netflix Fulfilled altP afterFirstLine))
       = [VideoPause, VideoPlay]
   \<and> \<not> paused (snd (keydown initialSettings Netflix Fulfilled altP afterFirstLine))"
  by (simp add: afterFirstLine_eq isInteractionKey_def matchesHotkey_def altP_def
      initialSettings_def defaultHotkey_def handler_defs)

text \<open>
  Claim C6, for key presses that are not the toggle chord.  In a state that is
  enabled, auto-paused and not locked, an interaction key (\<^verbatim>\<open>code\<close> Space, or \<^verbatim>\<open>key\<close>
  \<^verbatim>\<open>k\<close> or \<^verbatim>\<open>p\<close>) that does not match the hotkey clears \<^verbatim>\<open>timerId\<close> and cancels the
  timer it referred to, sets \<^verbatim>\<open>isPauseLocked\<close>, shows "|| Pause Locked" and makes no
  play request; the event is swallowed.  A second such key press calls
  \<^verbatim>\<open>video.play()\<close> at once and leaves the script idle: neither auto-paused nor locked,
  no timer stored.
\<close>

theorem interaction_key_locks_then_resumes:
  assumes "enabled st" and "isAutoPaused st" and "\<not> isPauseLocked st"
    and "isInteractionKey e" and "\<not> matchesHotkey s e"
    and "isInteractionKey e2" and "\<not> matchesHotkey s e2"
    and "keydown s p r e (st, w) = (st1, w1)"
    and "keydown s p r2 e2 (st1, w1) = (st2, w2)"
  shows "enabled st1 \<and> isAutoPaused st1 \<and> isPauseLocked st1 \<and> timerId st1 = None
    \<and> (\<forall>t \<in> set (resumeTimers w1). Some (handle t) \<noteq> timerId st)
    \<and> (\<exists>el. osd w1 = Some el \<and> innerText el = ''|| Pause Locked'' \<and> display el = ''block'')
    \<and> calls w1 = calls w @ [PreventDefault, StopPropagation]
    \<and> paused w1 = paused w
    \<and> enabled st2 \<and> \<not> isAutoPaused st2 \<and> \<not> isPauseLocked st2 \<and> timerId st2 = None
    \<and> calls w2 = calls w1 @ [PreventDefault, StopPropagation, VideoPlay]
    \<and> (r2 = Fulfilled \<longrightarrow> \<not> paused w2)"
proof -
  obtain u x where ui: "restoreUI p (st, w) = (st\<lparr>uiHidden := u\<rparr>, w\<lparr>wrapper := x\<rparr>)"
    using restoreUI_frame by blast
  let ?st0 = "st\<lparr>uiHidden := u\<rparr>"
  let ?w0 = "w\<lparr>wrapper := x, calls := calls w @ [PreventDefault, StopPropagation]\<rparr>"
  have k1: "lockPause (?st0, ?w0) = (st1, w1)"
    using keydown_interaction [OF assms(1,2,4,5) ui, of r] assms(3,8) by simp
  have st1: "st1 = ?st0\<lparr>timerId := None, isPauseLocked := True\<rparr>"
    using lockPause_state [of ?st0 ?w0] k1 by simp
  have w1: "calls w1 = calls w @ [PreventDefault, StopPropagation]" "paused w1 = paused w"
    "\<exists>el. osd w1 = Some el \<and> innerText el = ''|| Pause Locked'' \<and> display el = ''block''"
    "\<forall>t \<in> set (resumeTimers w1). Some (handle t) \<noteq> timerId st"
    using lockPause_browser [of ?st0 ?w0] k1 by (simp_all add: resumeTimers_def)
  obtain u' x' where ui': "restoreUI p (st1, w1) = (st1\<lparr>uiHidden := u'\<rparr>, w1\<lparr>wrapper := x'\<rparr>)"
    using restoreUI_frame by blast
  let ?st1 = "st1\<lparr>uiHidden := u'\<rparr>"
  let ?w1 = "w1\<lparr>wrapper := x', calls := calls w1 @ [PreventDefault, StopPropagation]\<rparr>"
  have en1: "enabled st1" "isAutoPaused st1" "isPauseLocked st1"
    using st1 assms(1,2) by simp_all
  have k2: "resumePlayback s r2 (?st1, ?w1) = (st2, w2)"
    using keydown_interaction [OF en1(1,2) assms(6,7) ui', of r2] en1(3) assms(9) by simp
  have st2: "st2 = ?st1\<lparr>timerId := None, isAutoPaused := False, isPauseLocked := False\<rparr>"
    using resumePlayback_state [of s r2 ?st1 ?w1] k2 by simp
  have w2: "calls w2 = calls w1 @ [PreventDefault, StopPropagation, VideoPlay]"
    "paused w2 = (if r2 = Fulfilled then False else paused w1)"
    using resumePlayback_browser(1,2) [of s r2 ?st1 ?w1] k2 by simp_all
  from st1 st2 w1 w2 assms(1,2) show ?thesis by simp
qed

theorem interaction_key_locks_then_resumes_witness:
  "enabled (fst afterFirstLine) \<and> isAutoPaused (fst afterFirstLine)
   \<and> \<not> isPauseLocked (fst afterFirstLine)
   \<and> isInteractionKey spaceKey \<and> \<not> matchesHotkey initialSettings spaceKey
   \<and> isPauseLocked (fst (keydown initialSettings Netflix Fulfilled spaceKey afterFirstLine))
   \<and> timerId (fst (keydown initialSettings Netflix Fulfilled spaceKey afterFirstLine)) = None
   \<and> calls (snd (keydown initialSettings Netflix Fulfilled spaceKey afterFirstLine))
       = [VideoPause, PreventDefault, StopPropagation]
   \<and> \<not> isAutoPaused (fst (keydown initialSettings Netflix Fulfilled spaceKey
          (keydown initialSettings Netflix Fulfilled spaceKey afterFirstLine)))
   \<and> \<not> paused (snd (keydown initialSettings Netflix Fulfilled spaceKey
          (keydown initialSettings Netflix Fulfilled spaceKey afterFirstLine)))"
proof -
  let ?m1 = "keydown initialSettings Netflix Fulfilled spaceKey afterFirstLine"
  let ?m2 = "keydown initialSettings Netflix Fulfilled spaceKey ?m1"
  have st: "enabled (fst afterFirstLine)" "isAutoPaused (fst afterFirstLine)"
    "\<not> isPauseLocked (fst afterFirstLine)"
    by (simp_all add: afterFirstLine_eq)
  have k: "isInteractionKey spaceKey" "\<not> matchesHotkey initialSettings spaceKey"
    by (simp_all add: isInteractionKey_def matchesHotkey_def spaceKey_def initialSettings_def
        defaultHotkey_def)
  have c0: "calls (snd afterFirstLine) = [VideoPause]" by (simp add: afterFirstLine_eq)
  have r1: "keydown initialSettings Netflix Fulfilled spaceKey (fst afterFirstLine, snd afterFirstLine)
            = (fst ?m1, snd ?m1)" by simp
  have r2: "keydown initialSettings Netflix Fulfilled spaceKey (fst ?m1, snd ?m1) = (fst ?m2, snd ?m2)"
    by simp
  from interaction_key_locks_then_resumes [OF st k k r1 r2] st k c0
  show ?thesis by simp
qed

subsection \<open>C7: switching the script off during an auto-pause\<close>

text \<open>
  Claim C7.  When a key press matches the hotkey while the script is enabled and
  holds a pause (locked or not), the script is switched off, \<^verbatim>\<open>video.play()\<close> is called
  in the same handler, \<^verbatim>\<open>timerId\<close> is cleared and the timer it referred to is
  cancelled, \<^verbatim>\<open>isAutoPaused\<close> and \<^verbatim>\<open>isPauseLocked\<close> are false, and every subtitle
  container carries \<^verbatim>\<open>pl-show-sub\<close> and not \<^verbatim>\<open>pl-hidden-sub\<close>.  Nothing depends on the
  timers pending or on their delays.
\<close>

theorem disable_while_autopaused_resumes:
  assumes "enabled st" and "isAutoPaused st" and "matchesHotkey s e"
    and "keydown s p r e (st, w) = (st', w')"
  shows "\<not> enabled st' \<and> \<not> isAutoPaused st' \<and> \<not> isPauseLocked st' \<and> timerId st' = None
    \<and> (\<forall>t \<in> set (resumeTimers w'). Some (handle t) \<noteq> timerId st)
    \<and> calls w' = calls w @ [VideoPlay]
    \<and> (r = Fulfilled \<longrightarrow> \<not> paused w')
    \<and> length (subs w') = length (subs w)
    \<and> (\<forall>node \<in> set (subs w'). ''pl-show-sub'' \<in> node \<and> ''pl-hidden-sub'' \<notin> node)"
proof -
  obtain u x where ui: "restoreUI p (st, w) = (st\<lparr>uiHidden := u\<rparr>, w\<lparr>wrapper := x\<rparr>)"
    using restoreUI_frame by blast
  define st1 where "st1 = st\<lparr>uiHidden := u, enabled := False\<rparr>"
  define w1 where "w1 = showOSD ''Primed Listening: OFF'' (w\<lparr>wrapper := x\<rparr>)"
  define st2 where "st2 = fst (resumePlayback s r (st1, w1))"
  define w2 where "w2 = snd (resumePlayback s r (st1, w1))"
  define w3 where "w3 = toggleSubtitles s True w2"
  have rp: "resumePlayback s r (st\<lparr>uiHidden := u, enabled := False\<rparr>,
              showOSD ''Primed Listening: OFF'' (w\<lparr>wrapper := x\<rparr>)) = (st2, w2)"
    by (simp add: st2_def w2_def st1_def w1_def)
  obtain u' x' where ui': "restoreUI p (st2, w3) = (st2\<lparr>uiHidden := u'\<rparr>, w3\<lparr>wrapper := x'\<rparr>)"
    using restoreUI_frame by blast
  have "keydown s p r e (st, w) = restoreUI p (st2, w3)"
    unfolding w3_def by (rule keydown_disable [OF assms(1-3) ui rp])
  with ui' assms(4) have res: "st' = st2\<lparr>uiHidden := u'\<rparr>" "w' = w3\<lparr>wrapper := x'\<rparr>"
    by simp_all
  have st2: "st2 = st1\<lparr>timerId := None, isAutoPaused := False, isPauseLocked := False\<rparr>"
    unfolding st2_def by (rule resumePlayback_state)
  have c2: "calls w2 = calls w @ [VideoPlay]"
    unfolding w2_def by (simp add: resumePlayback_browser(1) w1_def showOSD_frame)
  have p2: "paused w2 = (if r = Fulfilled then False else paused w)"
    unfolding w2_def by (simp add: resumePlayback_browser(2) w1_def showOSD_frame)
  have t2: "timers w2 = filter (\<lambda>t. Some (handle t) \<noteq> timerId st) (timers w1)"
    unfolding w2_def by (simp add: resumePlayback_browser(5) st1_def)
  have l2: "length (subs w2) = length (subs w)"
    unfolding w2_def by (simp add: resumePlayback_browser(6) w1_def showOSD_frame toggleSubtitles_def)
  have w3: "calls w3 = calls w2" "paused w3 = paused w2" "timers w3 = timers w2"
    "subs w3 = map (\<lambda>node. insert ''pl-show-sub'' (node - {''pl-hidden-sub''})) (subs w2)"
    unfolding w3_def by (simp_all add: toggleSubtitles_def)
  have a: "\<not> enabled st' \<and> \<not> isAutoPaused st' \<and> \<not> isPauseLocked st' \<and> timerId st' = None"
    by (simp add: res(1) st2 st1_def)
  have b: "\<forall>t \<in> set (resumeTimers w'). Some (handle t) \<noteq> timerId st"
    by (simp add: resumeTimers_def res(2) w3(3) t2)
  have c: "calls w' = calls w @ [VideoPlay]" by (simp add: res(2) w3(1) c2)
  have d: "r = Fulfilled \<longrightarrow> \<not> paused w'" by (simp add: res(2) w3(2) p2)
  have e: "length (subs w') = length (subs w)" by (simp add: res(2) w3(4) l2)
  have f: "\<forall>node \<in> set (subs w'). ''pl-show-sub'' \<in> node \<and> ''pl-hidden-sub'' \<notin> node"
    by (simp add: res(2) w3(4))
  from a b c d e f show ?thesis by blast
qed
theorem disable_while_autopaused_resumes_witness:
  "enabled (fst afterFirstLine) \<and> isAutoPaused (fst afterFirstLine)
   \<and> matchesHotkey initialSettings altP
   \<and> \<not> enabled (fst (keydown initialSettings Netflix Fulfilled altP afterFirstLine))
   \<and> timerId (fst (keydown initialSettings Netflix Fulfilled altP afterFirstLine)) = None
   \<and> resumeTimers (snd (keydown initialSettings Netflix Fulfilled altP afterFirstLine)) = []
   \<and> subs (snd (keydown initialSettings Netflix Fulfilled altP afterFirstLine)) = [{''pl-show-sub''}]
   \<and> \<not> paused (snd (keydown initialSettings Netflix Fulfilled altP afterFirstLine))"
proof -
  let ?m = "keydown initialSettings Netflix Fulfilled altP afterFirstLine"
  have st: "enabled (fst afterFirstLine)" "isAutoPaused (fst afterFirstLine)"
    by (simp_all add: afterFirstLine_eq)
  have k: "matchesHotkey initialSettings altP"
    by (simp add: matchesHotkey_def altP_def initialSettings_def defaultHotkey_def)
  have r: "keydown initialSettings Netflix Fulfilled altP (fst afterFirstLine, snd afterFirstLine)
           = (fst ?m, snd ?m)" by simp
  have t: "resumeTimers (snd afterFirstLine) = [\<lparr>handle = 1, callback = ResumeCb, delay = 600\<rparr>]"
    "timerId (fst afterFirstLine) = Some 1"
    by (simp_all add: afterFirstLine_eq resumeTimers_def)
  have rt: "resumeTimers (snd ?m) = []" "subs (snd ?m) = [{''pl-show-sub''}]"
    by (simp_all add: afterFirstLine_eq resumeTimers_def matchesHotkey_def altP_def
        initialSettings_def defaultHotkey_def handler_defs)
  from disable_while_autopaused_resumes [OF st k r] st k rt
  show ?thesis by simp
qed

subsection \<open>C8: a video the user paused\<close>

text \<open>
  Claim C8.  A mutation batch that arrives while the video is paused and the script
  does not hold the pause forwards no text to \<^verbatim>\<open>handleSubtitle\<close> and changes neither
  the script state nor the browser; in particular no pause is triggered.
\<close>

theorem user_paused_video_not_auto_paused:
  assumes "paused w" and "\<not> isAutoPaused st"
  shows "forwardedText (st, w) g = None \<and> observerCallback s p g (st, w) = (st, w)"
proof -
  from assms have "forwardedText (st, w) g = None"
    by (simp add: forwardedText_def)
  then show ?thesis by (simp add: observerCallback_def)
qed

theorem user_paused_video_not_auto_paused_witness:
  "paused (playingPage\<lparr>paused := True\<rparr>) \<and> \<not> isAutoPaused (initialState\<lparr>enabled := True\<rparr>)
   \<and> forwardedText (initialState\<lparr>enabled := True\<rparr>, playingPage\<lparr>paused := True\<rparr>)
        (Returned (ascii ''Hello there'')) = None
   \<and> observerCallback initialSettings Youtube (Returned (ascii ''Hello there''))
        (initialState\<lparr>enabled := True\<rparr>, playingPage\<lparr>paused := True\<rparr>)
      = (initialState\<lparr>enabled := True\<rparr>, playingPage\<lparr>paused := True\<rparr>)"
proof -
  have h: "paused (playingPage\<lparr>paused := True\<rparr>)" "\<not> isAutoPaused (initialState\<lparr>enabled := True\<rparr>)"
    by (simp_all add: initialState_def)
  from user_paused_video_not_auto_paused [OF h] h show ?thesis by blast
qed

subsection \<open>C9: a rejected play request\<close>

text \<open>
  Claim C9.  When the browser rejects the play request of \<^verbatim>\<open>resumePlayback\<close>, the
  script state is the one a fulfilled request leaves (timer cleared, not auto-paused,
  not locked), the on-screen display is untouched, \<^verbatim>\<open>video.play()\<close> has been called
  exactly once, and no timer has been armed for another attempt.
\<close>

theorem rejected_play_is_discarded:
  "fst (resumePlayback s Rejected (st, w))
     = st\<lparr>timerId := None, isAutoPaused := False, isPauseLocked := False\<rparr>
   \<and> fst (resumePlayback s Rejected (st, w)) = fst (resumePlayback s Fulfilled (st, w))
   \<and> osd (snd (resumePlayback s Rejected (st, w))) = osd w
   \<and> calls (snd (resumePlayback s Rejected (st, w))) = calls w @ [VideoPlay]
   \<and> timers (snd (resumePlayback s Rejected (st, w)))
       = filter (\<lambda>t. Some (handle t) \<noteq> timerId st) (timers w)
   \<and> paused (snd (resumePlayback s Rejected (st, w))) = paused w"
  by (simp add: resumePlayback_state resumePlayback_browser)

theorem rejected_play_is_discarded_witness:
  "resumePlayback initialSettings Rejected afterFirstLine =
     (\<lparr>enabled = True, isAutoPaused = False, isPauseLocked = False, timerId = None,
       lastSubText = ascii ''Hello there'', uiHidden = True\<rparr>,
      \<lparr>paused = True, calls = [VideoPause, VideoPlay], subs = [{}],
       wrapper = {''pl-netflix-ui-hidden''}, osd = None, timers = [], lastHandle = 1\<rparr>)"
proof -
  let ?st = "\<lparr>enabled = True, isAutoPaused = True, isPauseLocked = False, timerId = Some 1,
       lastSubText = ascii ''Hello there'', uiHidden = True\<rparr>"
  let ?w = "\<lparr>paused = True, calls = [VideoPause], subs = [{}], wrapper = {''pl-netflix-ui-hidden''},
       osd = None, timers = [\<lparr>handle = 1, callback = ResumeCb, delay = 600\<rparr>],
       lastHandle = 1\<rparr>"
  have "fst (resumePlayback initialSettings Rejected (?st, ?w))
          = \<lparr>enabled = True, isAutoPaused = False, isPauseLocked = False, timerId = None,
       lastSubText = ascii ''Hello there'', uiHidden = True\<rparr>"
    using rejected_play_is_discarded [of initialSettings ?st ?w] by simp
  moreover have "snd (resumePlayback initialSettings Rejected (?st, ?w))
          = \<lparr>paused = True, calls = [VideoPause, VideoPlay], subs = [{}],
       wrapper = {''pl-netflix-ui-hidden''}, osd = None, timers = [], lastHandle = 1\<rparr>"
    by (simp add: initialSettings_def handler_defs)
  ultimately show ?thesis
    by (simp add: afterFirstLine_eq prod_eq_iff)
qed

subsection \<open>C10: the two variants of the script\<close>

text \<open>
  Claim C10 says that \<^verbatim>\<open>handleSubtitle\<close> of \<^verbatim>\<open>content.js\<close> and of the older variant schedule
  the same duration for every event.  Only \<^verbatim>\<open>content.js\<close> caps the duration: with its
  initial settings (\<^verbatim>\<open>max_pause\<close> 2.0) a line of 34 visible characters is scheduled for
  2000 ms, while the older variant schedules 2040 ms.
\<close>

theorem variants_differ_above_cap_counterexample:
  "map delay (timers (snd (handleSubtitle initialSettings Youtube
       (ascii ''I have a bad feeling about this, my friend'')
       (initialState\<lparr>enabled := True\<rparr>, playingPage)))) = [2000]
   \<and> map delay (timers (snd (handleSubtitle_part002 (settings_part002.truncate initialSettings)
       (ascii ''I have a bad feeling about this, my friend'')
       (state_part002.truncate (initialState\<lparr>enabled := True\<rparr>), playingPage)))) = [2040]"
  by (simp add: eval_defs handleSubtitle_part002_def pauseDuration_part002_def
      settings_part002.truncate_def state_part002.truncate_def)

text \<open>
  Claim C10, as the scripts do it.  On the same settings (the older variant has no
  \<^verbatim>\<open>max_pause\<close>), state and text, both variants make the same changes to the fields of
  the script state they share, and both leave the browser alone when the event
  triggers no pause.  When it triggers one, the older variant schedules
  \<open>d = max(min_pause, chars * pause_per_char)\<close> seconds and \<^verbatim>\<open>content.js\<close> schedules
  \<open>min(max_pause, d)\<close>; the two timers are the same whenever \<open>d\<close> does not exceed
  \<^verbatim>\<open>max_pause\<close>.
\<close>

theorem variants_agree_up_to_cap:
  assumes "handleSubtitle s p text (st, w) = (st', w')"
    and "handleSubtitle_part002 (settings_part002.truncate s) text (state_part002.truncate st, w)
           = (st2, w2)"
  shows "state_part002.truncate st' = st2
    \<and> (\<not> triggersPause s st text \<longrightarrow> w' = w \<and> w2 = w)
    \<and> (triggersPause s st text \<longrightarrow>
          (\<exists>d. d = max (min_pause s) (real (getVisibleCharCount (trim text)) * pause_per_char s)
             \<and> timers w2 = timers w @ [\<lparr>handle = Suc (lastHandle w), callback = ResumeCb,
                                         delay = d * 1000\<rparr>]
             \<and> timers w' = timers w @ [\<lparr>handle = Suc (lastHandle w), callback = ResumeCb,
                                         delay = min (max_pause s) d * 1000\<rparr>]
             \<and> (d \<le> max_pause s \<longrightarrow> timers w' = timers w2)))"
proof -
  let ?s' = "settings_part002.truncate s"
  let ?st' = "state_part002.truncate st"
  have trig: "triggersPause ?s' ?st' text = triggersPause s st text"
    by (simp add: triggersPause_def settings_part002.truncate_def state_part002.truncate_def)
  show ?thesis
  proof (cases "triggersPause s st text")
    case False
    with trig have f0: "\<not> triggersPause ?s' ?st' text" by simp
    from handleSubtitle_skip [OF False, of p w] handleSubtitle_part002_skip [OF f0, of w]
      assms False
    show ?thesis by (auto simp: state_part002.truncate_def)
  next
    case True
    with trig have t0: "triggersPause ?s' ?st' text" by simp
    have a: "state_part002.truncate st' = st2"
      using handleSubtitle_pause_state [OF True, of p w] handleSubtitle_part002_pause [OF t0, of w]
        assms by (simp add: state_part002.truncate_def)
    have b: "timers w2 = timers w @ [\<lparr>handle = Suc (lastHandle w), callback = ResumeCb,
        delay = max (min_pause s) (real (getVisibleCharCount (trim text)) * pause_per_char s) * 1000\<rparr>]"
      using handleSubtitle_part002_pause [OF t0, of w] assms(2)
      by (auto simp: pauseDuration_part002_def settings_part002.truncate_def toggleSubtitles_def
          videoPause_def)
    have c: "timers w' = timers w @ [\<lparr>handle = Suc (lastHandle w), callback = ResumeCb,
        delay = min (max_pause s)
          (max (min_pause s) (real (getVisibleCharCount (trim text)) * pause_per_char s)) * 1000\<rparr>]"
      using handleSubtitle_pause(2) [OF True assms(1)] by (simp add: pauseDuration_def Let_def)
    from a b c True show ?thesis by (simp add: min_absorb2)
  qed
qed

theorem variants_agree_up_to_cap_witness:
  "triggersPause initialSettings (initialState\<lparr>enabled := True\<rparr>) (ascii ''Hello there'')
   \<and> max (min_pause initialSettings)
         (real (getVisibleCharCount (trim (ascii ''Hello there''))) * pause_per_char initialSettings)
       \<le> max_pause initialSettings
   \<and> timers (snd (handleSubtitle initialSettings Youtube (ascii ''Hello there'')
        (initialState\<lparr>enabled := True\<rparr>, playingPage)))
     = timers (snd (handleSubtitle_part002 (settings_part002.truncate initialSettings)
        (ascii ''Hello there'') (state_part002.truncate (initialState\<lparr>enabled := True\<rparr>), playingPage)))
   \<and> state_part002.truncate (fst (handleSubtitle initialSettings Youtube (ascii ''Hello there'')
        (initialState\<lparr>enabled := True\<rparr>, playingPage)))
     = fst (handleSubtitle_part002 (settings_part002.truncate initialSettings)
        (ascii ''Hello there'') (state_part002.truncate (initialState\<lparr>enabled := True\<rparr>), playingPage))"
proof -
  let ?s = initialSettings
  let ?st = "initialState\<lparr>enabled := True\<rparr>"
  let ?t = "ascii ''Hello there''"
  let ?m = "handleSubtitle ?s Youtube ?t (?st, playingPage)"
  let ?old = "handleSubtitle_part002 (settings_part002.truncate ?s) ?t
               (state_part002.truncate ?st, playingPage)"
  have t: "triggersPause ?s ?st ?t" by (simp add: triggersPause_def eval_defs)
  have d: "max (min_pause ?s) (real (getVisibleCharCount (trim ?t)) * pause_per_char ?s)
             \<le> max_pause ?s"
    by (simp add: eval_defs)
  have r: "handleSubtitle ?s Youtube ?t (?st, playingPage) = (fst ?m, snd ?m)"
    "handleSubtitle_part002 (settings_part002.truncate ?s) ?t
               (state_part002.truncate ?st, playingPage) = (fst ?old, snd ?old)"
    by simp_all
  from variants_agree_up_to_cap [OF r] t d show ?thesis by simp
qed

end
